theory Spec2Isabelle
  imports Main "HOL-Library.Sublist"
begin

section \<open>Values of the host language\<close>

text \<open>
  The table works on rows of type \<^verbatim>\<open>Record<string, unknown>\<close>. A value is one of the
  JavaScript data values a row can hold. Composite values carry their own properties as an
  association list (keys are distinct in a well-formed object) and their prototype, so that a
  property deliberately placed on the prototype chain is part of the value; the chain ends in
  \<open>JNull\<close>. Numbers are the integers that a double holds exactly, strings are sequences
  of 8-bit code units (Latin-1), a date is its epoch time, a function is its source text.
  Rows are plain data: no accessor properties, no proxies, no cycles.
\<close>

datatype jsval =
    JUndefined
  | JNull
  | JBool bool
  | JNum int
  | JStr string
  | JFun string
  | JDate int jsval
  | JArr "jsval list" jsval
  | JObj "(string \<times> jsval) list" jsval

text \<open>
  What the engine and the browser supply and the repository does not define: the
  locale-aware string comparison, the date formats, the string-to-number grammar,
  \<^verbatim>\<open>JSON.stringify\<close> and the clock's \<^verbatim>\<open>new Date().toLocaleString()\<close>.
\<close>

record host =
  localeCompare :: "string \<Rightarrow> string \<Rightarrow> int"
  dateToString :: "int \<Rightarrow> string"
  dateToISOString :: "int \<Rightarrow> string"
  dateToLocaleDateString :: "int \<Rightarrow> string"
  stringToNumber :: "string \<Rightarrow> int option"
  jsonStringify :: "jsval \<Rightarrow> string"
  nowLocaleString :: string

text \<open>\<^verbatim>\<open>typeof v\<close>.\<close>

fun typeof :: "jsval \<Rightarrow> string" where
  "typeof JUndefined = ''undefined''"
| "typeof JNull = ''object''"
| "typeof (JBool b) = ''boolean''"
| "typeof (JNum n) = ''number''"
| "typeof (JStr s) = ''string''"
| "typeof (JFun f) = ''function''"
| "typeof (JDate t p) = ''object''"
| "typeof (JArr xs p) = ''object''"
| "typeof (JObj ps p) = ''object''"

text \<open>\<^verbatim>\<open>v === null || v === undefined\<close>, written \<^verbatim>\<open>v ?? d\<close> when it selects a default.\<close>

definition nullish :: "jsval \<Rightarrow> bool" where
  "nullish v = (v = JNull \<or> v = JUndefined)"

text \<open>
  \<^verbatim>\<open>a === b\<close>. Primitives compare by value. Composite values have no identity in this
  model and compare by structure, which agrees with the engine whenever the two operands
  are the same object or differ in content.
\<close>

definition strict_eq :: "jsval \<Rightarrow> jsval \<Rightarrow> bool" where
  "strict_eq a b = (a = b)"

subsection \<open>Decimal numerals\<close>

definition digit_char :: "nat \<Rightarrow> char" where
  "digit_char d = char_of (48 + d)"

fun nat_to_string :: "nat \<Rightarrow> string" where
  "nat_to_string n =
     (if n < 10 then [digit_char n] else nat_to_string (n div 10) @ [digit_char (n mod 10)])"

declare nat_to_string.simps [simp del]

definition int_to_string :: "int \<Rightarrow> string" where
  "int_to_string i = (if i < 0 then CHR ''-'' # nat_to_string (nat (- i)) else nat_to_string (nat i))"

definition is_digit :: "char \<Rightarrow> bool" where
  "is_digit c = (48 \<le> (of_char c :: nat) \<and> (of_char c :: nat) \<le> 57)"

fun digits_value :: "nat \<Rightarrow> string \<Rightarrow> nat" where
  "digits_value acc [] = acc"
| "digits_value acc (c # cs) = digits_value (10 * acc + ((of_char c :: nat) - 48)) cs"

text \<open>A property key that is a canonical array index: decimal digits without a leading zero.\<close>

definition array_index :: "string \<Rightarrow> nat option" where
  "array_index k =
     (if k \<noteq> [] \<and> list_all is_digit k \<and> (k = ''0'' \<or> hd k \<noteq> CHR ''0'')
      then Some (digits_value 0 k) else None)"

subsection \<open>Property reads\<close>

text \<open>
  \<^verbatim>\<open>obj[key]\<close> on a composite value: the own property, else the prototype chain. An array
  owns its indices and \<^verbatim>\<open>length\<close>. \<open>None\<close> means that no object of the chain has the key.
\<close>

fun lookup_chain :: "jsval \<Rightarrow> string \<Rightarrow> jsval option" where
  "lookup_chain (JObj ps proto) k =
     (case map_of ps k of Some v \<Rightarrow> Some v | None \<Rightarrow> lookup_chain proto k)"
| "lookup_chain (JArr xs proto) k =
     (case array_index k of
        Some i \<Rightarrow> (if i < length xs then Some (xs ! i) else lookup_chain proto k)
      | None \<Rightarrow> (if k = ''length'' then Some (JNum (int (length xs))) else lookup_chain proto k))"
| "lookup_chain (JDate t proto) k = lookup_chain proto k"
| "lookup_chain _ k = None"

fun proto_of :: "jsval \<Rightarrow> jsval" where
  "proto_of (JObj ps proto) = proto"
| "proto_of (JArr xs proto) = proto"
| "proto_of (JDate t proto) = proto"
| "proto_of _ = JUndefined"

text \<open>
  The read itself. The key \<^verbatim>\<open>__proto__\<close>, unless shadowed by a data property, is the
  accessor of \<^verbatim>\<open>Object.prototype\<close> and answers the receiver's prototype.
\<close>

definition js_get :: "jsval \<Rightarrow> string \<Rightarrow> jsval" where
  "js_get obj k =
     (case lookup_chain obj k of
        Some v \<Rightarrow> v
      | None \<Rightarrow> (if k = ''__proto__'' then proto_of obj else JUndefined))"

subsection \<open>Coercions\<close>

definition join_with :: "string \<Rightarrow> string list \<Rightarrow> string" where
  "join_with sep xs = (case xs of [] \<Rightarrow> [] | y # ys \<Rightarrow> y @ concat (map (\<lambda>s. sep @ s) ys))"

text \<open>
  \<^verbatim>\<open>String(v)\<close>. An array joins its elements with a comma, \<^verbatim>\<open>null\<close> and
  \<^verbatim>\<open>undefined\<close> elements giving the empty string; a plain object has the default
  \<^verbatim>\<open>toString\<close>.
\<close>

fun js_string :: "host \<Rightarrow> jsval \<Rightarrow> string" where
  "js_string h JUndefined = ''undefined''"
| "js_string h JNull = ''null''"
| "js_string h (JBool b) = (if b then ''true'' else ''false'')"
| "js_string h (JNum n) = int_to_string n"
| "js_string h (JStr s) = s"
| "js_string h (JFun src) = src"
| "js_string h (JDate t p) = dateToString h t"
| "js_string h (JArr xs p) =
     join_with '','' (map (\<lambda>x. if x = JNull \<or> x = JUndefined then [] else js_string h x) xs)"
| "js_string h (JObj ps p) = ''[object Object]''"

text \<open>\<^verbatim>\<open>Number(v)\<close>; \<open>None\<close> is \<^verbatim>\<open>NaN\<close>.\<close>

fun js_number :: "host \<Rightarrow> jsval \<Rightarrow> int option" where
  "js_number h JUndefined = None"
| "js_number h JNull = Some 0"
| "js_number h (JBool b) = Some (if b then 1 else 0)"
| "js_number h (JNum n) = Some n"
| "js_number h (JStr s) = stringToNumber h s"
| "js_number h (JFun src) = None"
| "js_number h (JDate t p) = Some t"
| "js_number h (JArr xs p) = stringToNumber h (js_string h (JArr xs p))"
| "js_number h (JObj ps p) = stringToNumber h (js_string h (JObj ps p))"

text \<open>\<^verbatim>\<open>a > b\<close> and \<^verbatim>\<open>a < b\<close> on numbers: false as soon as one side is \<^verbatim>\<open>NaN\<close>.\<close>

definition num_gt :: "int option \<Rightarrow> int option \<Rightarrow> bool" where
  "num_gt a b = (case (a, b) of (Some x, Some y) \<Rightarrow> x > y | _ \<Rightarrow> False)"

definition num_lt :: "int option \<Rightarrow> int option \<Rightarrow> bool" where
  "num_lt a b = (case (a, b) of (Some x, Some y) \<Rightarrow> x < y | _ \<Rightarrow> False)"

subsection \<open>String methods\<close>

text \<open>\<^verbatim>\<open>s.toLowerCase()\<close> on Latin-1 code units: A-Z and the accented capitals but the times sign.\<close>

definition lower_char :: "char \<Rightarrow> char" where
  "lower_char c =
     (let n = (of_char c :: nat) in
      if (65 \<le> n \<and> n \<le> 90) \<or> (192 \<le> n \<and> n \<le> 222 \<and> n \<noteq> 215) then char_of (n + 32) else c)"

definition toLowerCase :: "string \<Rightarrow> string" where
  "toLowerCase s = map lower_char s"

fun startsWith :: "string \<Rightarrow> string \<Rightarrow> bool" where
  "startsWith s [] = True"
| "startsWith [] (p # ps) = False"
| "startsWith (c # cs) (p # ps) = (c = p \<and> startsWith cs ps)"

fun str_includes :: "string \<Rightarrow> string \<Rightarrow> bool" where
  "str_includes [] p = (p = [])"
| "str_includes (c # cs) p = (startsWith (c # cs) p \<or> str_includes cs p)"

definition endsWith :: "string \<Rightarrow> string \<Rightarrow> bool" where
  "endsWith s p = startsWith (rev s) (rev p)"

text \<open>\<^verbatim>\<open>path.split('.')\<close>: never empty, an empty path gives one empty segment.\<close>

fun split_dot :: "string \<Rightarrow> string list" where
  "split_dot [] = [[]]"
| "split_dot (c # cs) =
     (if c = CHR ''.'' then [] # split_dot cs
      else (case split_dot cs of [] \<Rightarrow> [[c]] | seg # segs \<Rightarrow> (c # seg) # segs))"

section \<open>Export utilities\<close>

subsection \<open>getNestedValue\<close>

definition BANNED_KEYS :: "string set" where
  "BANNED_KEYS = {''__proto__'', ''constructor'', ''prototype''}"

text \<open>
  The reader of version 2.0.0, which every other function of that version calls. The loop of \<^verbatim>\<open>getNestedValue\<close> over the segments. The third argument records, in
  order, the keys of the property reads \<^verbatim>\<open>current[part]\<close> performed so far; it is
  returned beside the value.
\<close>

fun resolve_parts :: "jsval \<Rightarrow> string list \<Rightarrow> string list \<Rightarrow> jsval \<times> string list" where
  "resolve_parts current [] reads = (current, reads)"
| "resolve_parts current (part # rest) reads =
     (if part \<in> BANNED_KEYS then (JUndefined, reads)
      else if current = JNull \<or> current = JUndefined \<or> typeof current \<noteq> ''object''
        then (JUndefined, reads)
      else resolve_parts (js_get current part) rest (reads @ [part]))"

definition getNestedValue_reads :: "jsval \<Rightarrow> string \<Rightarrow> jsval \<times> string list" where
  "getNestedValue_reads obj path = resolve_parts obj (split_dot path) []"

definition getNestedValue :: "jsval \<Rightarrow> string \<Rightarrow> jsval" where
  "getNestedValue obj path = fst (getNestedValue_reads obj path)"

text \<open>
  The reader of version 1.0.0, still exported by \<^verbatim>\<open>src/exportUtils.ts\<close>:
  \<^verbatim>\<open>path.split('.').reduce((acc, part) => acc?.[part], obj)\<close>. The step \<^verbatim>\<open>acc?.[part]\<close>
  is \<^verbatim>\<open>undefined\<close> when \<^verbatim>\<open>acc\<close> is \<^verbatim>\<open>null\<close> or \<^verbatim>\<open>undefined\<close> and the
  property read otherwise. A string owns its indices and \<^verbatim>\<open>length\<close>; every other member
  of a primitive or of a function is read through the object that the engine supplies for
  it, the first argument.
\<close>

fun read_member :: "(jsval \<Rightarrow> jsval) \<Rightarrow> jsval \<Rightarrow> string \<Rightarrow> jsval" where
  "read_member builtin (JObj ps proto) k = js_get (JObj ps proto) k"
| "read_member builtin (JArr xs proto) k = js_get (JArr xs proto) k"
| "read_member builtin (JDate t proto) k = js_get (JDate t proto) k"
| "read_member builtin (JStr s) k =
     (case array_index k of
        Some i \<Rightarrow> (if i < length s then JStr [s ! i] else JUndefined)
      | None \<Rightarrow>
         (if k = ''length'' then JNum (int (length s))
          else (case lookup_chain (builtin (JStr s)) k of
                  Some v \<Rightarrow> v
                | None \<Rightarrow> (if k = ''__proto__'' then builtin (JStr s) else JUndefined))))"
| "read_member builtin v k =
     (case lookup_chain (builtin v) k of
        Some x \<Rightarrow> x
      | None \<Rightarrow> (if k = ''__proto__'' then builtin v else JUndefined))"

definition optional_member :: "(jsval \<Rightarrow> jsval) \<Rightarrow> jsval \<Rightarrow> string \<Rightarrow> jsval" where
  "optional_member builtin acc part =
     (if acc = JNull \<or> acc = JUndefined then JUndefined else read_member builtin acc part)"

definition getNestedValue_legacy :: "(jsval \<Rightarrow> jsval) \<Rightarrow> jsval \<Rightarrow> string \<Rightarrow> jsval" where
  "getNestedValue_legacy builtin obj path = foldl (optional_member builtin) obj (split_dot path)"

subsection \<open>escapeHtml\<close>

text \<open>
  \<^verbatim>\<open>div.textContent = str; return div.innerHTML\<close>: the browser serialises the text node,
  replacing the ampersand, the no-break space and the two angle brackets.
\<close>

definition escape_char :: "char \<Rightarrow> string" where
  "escape_char c =
     (if c = CHR ''&'' then ''&amp;''
      else if c = CHR 0xA0 then ''&nbsp;''
      else if c = CHR ''<'' then ''&lt;''
      else if c = CHR ''>'' then ''&gt;''
      else [c])"

definition serialize_text :: "string \<Rightarrow> string" where
  "serialize_text s = concat (map escape_char s)"

definition escapeHtml :: "host \<Rightarrow> jsval \<Rightarrow> string" where
  "escapeHtml h v = (if v = JNull \<or> v = JUndefined then [] else serialize_text (js_string h v))"

subsection \<open>formatValueForExport\<close>

record column =
  col_id :: string
  col_label :: string
  searchable :: "bool option"
  hidden :: "bool option"
  exportable :: "bool option"
  exportFormat :: "(jsval \<Rightarrow> jsval \<Rightarrow> nat \<Rightarrow> string) option"

definition formatValueForExport :: "host \<Rightarrow> jsval \<Rightarrow> jsval \<Rightarrow> column \<Rightarrow> nat \<Rightarrow> string" where
  "formatValueForExport h val row col rowIndex =
     (case exportFormat col of
        Some f \<Rightarrow> f val row rowIndex
      | None \<Rightarrow>
         (if val = JNull \<or> val = JUndefined then []
          else (case val of
                  JBool b \<Rightarrow> (if b then ''Yes'' else ''No'')
                | JDate t p \<Rightarrow> dateToLocaleDateString h t
                | _ \<Rightarrow> (if typeof val = ''object'' then jsonStringify h val
                        else js_string h val))))"

subsection \<open>resolveHtmlContent\<close>

text \<open>A string that is present and not empty: the truthiness test on an optional string.\<close>

definition truthy :: "string option \<Rightarrow> bool" where
  "truthy t = (case t of None \<Rightarrow> False | Some s \<Rightarrow> s \<noteq> [])"

text \<open>\<^verbatim>\<open>t || d\<close> on an optional string.\<close>

definition or_else :: "string option \<Rightarrow> string \<Rightarrow> string" where
  "or_else t d = (case t of None \<Rightarrow> d | Some s \<Rightarrow> (if s = [] then d else s))"

definition resolveHtmlContent :: "host \<Rightarrow> string option \<Rightarrow> bool \<Rightarrow> string" where
  "resolveHtmlContent h val allowUnsafe =
     (if \<not> truthy val then []
      else if allowUnsafe then the val else escapeHtml h (JStr (the val)))"

subsection \<open>exportToWord\<close>

record export_config =
  filename :: "string option"
  title :: "string option"
  subtitle :: "string option"
  includeHeaders :: "bool option"
  customHeader :: "string option"
  customFooter :: "string option"
  allowUnsafeHtml :: "bool option"

definition newline :: string where
  "newline = [CHR 0x0A]"

text \<open>The fixed text of the template literal, up to the document title and after it.\<close>

definition word_document_open :: string where
  \<open>word_document_open = join_with newline
    ['''',
     ''<html xmlns:o="urn:schemas-microsoft-com:office:office"'',
     ''      xmlns:w="urn:schemas-microsoft-com:office:word"'',
     ''      xmlns="http://www.w3.org/TR/REC-html40">'',
     ''<head>'',
     ''  <meta charset="UTF-8">'',
     ''  <title>'']\<close>

definition word_document_head :: string where
  \<open>word_document_head = join_with newline
    [''</title>'',
     ''  <!--[if gte mso 9]>'',
     ''  <xml>'',
     ''    <w:WordDocument>'',
     ''      <w:View>Print</w:View>'',
     ''      <w:Zoom>100</w:Zoom>'',
     ''      <w:DoNotOptimizeForBrowser/>'',
     ''    </w:WordDocument>'',
     ''  </xml>'',
     ''  <![endif]-->'',
     ''  <style>'',
     ''    body { font-family: Calibri, sans-serif; font-size: 11pt; margin: 2cm; }'',
     ''    h1 { font-size: 18pt; color: #1976d2; margin-bottom: 4pt; }'',
     ''    .subtitle { font-size: 11pt; color: #666; margin-bottom: 12pt; }'',
     ''    .custom-header { font-size: 10pt; margin-bottom: 8pt; }'',
     ''    .meta { font-size: 9pt; color: #888; margin-bottom: 18pt; }'',
     ''    table { width: 100%; border-collapse: collapse; margin-top: 8pt; }'',
     ''    th {'',
     ''      background-color: #1976d2; color: white; font-weight: bold;'',
     ''      text-align: left; padding: 7pt 5pt; font-size: 10pt;'',
     ''      border: 1pt solid #1565c0;'',
     ''    }'',
     ''    td { padding: 5pt; border: 1pt solid #e0e0e0; font-size: 10pt; }'',
     ''    tr:nth-child(even) td { background-color: #f5f5f5; }'',
     ''    .footer {'',
     ''      margin-top: 18pt; padding-top: 8pt; border-top: 1pt solid #e0e0e0;'',
     ''      font-size: 9pt; color: #888; text-align: center;'',
     ''    }'',
     ''  </style>'',
     ''</head>'',
     ''<body>'',
     ''  '']\<close>

definition exportableColumns :: "column list \<Rightarrow> column list" where
  "exportableColumns cols = filter (\<lambda>col. exportable col \<noteq> Some False \<and> hidden col \<noteq> Some True) cols"

definition customHeaderHtml :: "host \<Rightarrow> export_config \<Rightarrow> string" where
  \<open>customHeaderHtml h config =
     (if truthy (customHeader config)
      then ''<div class="custom-header">''
           @ resolveHtmlContent h (customHeader config) (allowUnsafeHtml config = Some True)
           @ ''</div>''
      else [])\<close>

definition customFooterHtml :: "host \<Rightarrow> export_config \<Rightarrow> string" where
  \<open>customFooterHtml h config =
     (if truthy (customFooter config)
      then ''<p class="footer">''
           @ resolveHtmlContent h (customFooter config) (allowUnsafeHtml config = Some True)
           @ ''</p>''
      else ''<p class="footer">'' @ escapeHtml h (JStr (or_else (title config) ''Document''))
           @ ''</p>'')\<close>

definition tableCell :: "host \<Rightarrow> jsval \<Rightarrow> nat \<Rightarrow> column \<Rightarrow> string" where
  "tableCell h row rowIndex col =
     ''<td>''
     @ escapeHtml h (JStr (formatValueForExport h (getNestedValue row (col_id col)) row col rowIndex))
     @ ''</td>''"

definition tableRow :: "host \<Rightarrow> column list \<Rightarrow> nat \<times> jsval \<Rightarrow> string" where
  "tableRow h cols ir =
     ''<tr>'' @ concat (map (tableCell h (snd ir) (fst ir)) cols) @ ''</tr>''"

definition tableRows :: "host \<Rightarrow> column list \<Rightarrow> jsval list \<Rightarrow> string" where
  "tableRows h cols rows = join_with newline (map (tableRow h cols) (enumerate 0 rows))"

definition headerRow :: "host \<Rightarrow> column list \<Rightarrow> export_config \<Rightarrow> string" where
  "headerRow h cols config =
     (if includeHeaders config \<noteq> Some False
      then ''<tr>'' @ concat (map (\<lambda>col. ''<th>'' @ escapeHtml h (JStr (col_label col)) @ ''</th>'') cols)
           @ ''</tr>''
      else [])"

text \<open>
  The markup handed to the download: the value of \<^verbatim>\<open>html\<close> in \<^verbatim>\<open>exportToWord\<close>.
\<close>

definition exportToWord :: "host \<Rightarrow> jsval list \<Rightarrow> column list \<Rightarrow> export_config \<Rightarrow> string" where
  \<open>exportToWord h rows cols config =
     word_document_open
     @ escapeHtml h (JStr (or_else (title config) ''Export''))
     @ word_document_head
     @ (if truthy (title config)
        then ''<h1>'' @ escapeHtml h (JStr (the (title config))) @ ''</h1>'' else [])
     @ newline @ ''  ''
     @ (if truthy (subtitle config)
        then ''<p class="subtitle">'' @ escapeHtml h (JStr (the (subtitle config))) @ ''</p>''
        else [])
     @ newline @ ''  ''
     @ customHeaderHtml h config
     @ newline @ ''  <p class="meta">Generated: ''
     @ escapeHtml h (JStr (nowLocaleString h))
     @ '' | Total Records: '' @ nat_to_string (length rows) @ ''</p>''
     @ newline @ ''  <table>''
     @ newline @ ''    <thead>'' @ headerRow h (exportableColumns cols) config @ ''</thead>''
     @ newline @ ''    <tbody>'' @ tableRows h (exportableColumns cols) rows @ ''</tbody>''
     @ newline @ ''  </table>''
     @ newline @ ''  '' @ customFooterHtml h config
     @ newline @ ''</body>''
     @ newline @ ''</html>''\<close>

subsection \<open>Markup of the document\<close>

text \<open>
  The number of opening (equally, of closing) angle brackets that the template of
  \<^verbatim>\<open>exportToWord\<close> writes by itself for a given number of rows and exported columns: 32 in
  the fixed text, two for each optional block, and two for each table row and each cell.
\<close>

definition template_markup :: "nat \<Rightarrow> nat \<Rightarrow> export_config \<Rightarrow> nat" where
  "template_markup n m config =
     32 + (if truthy (title config) then 2 else 0)
        + (if truthy (subtitle config) then 2 else 0)
        + (if truthy (customHeader config) then 2 else 0)
        + (if includeHeaders config \<noteq> Some False then 2 + 2 * m else 0)
        + n * (2 + 2 * m)"

text \<open>
  The occurrences of a character in the custom header and footer when the configuration
  declares them trusted, none otherwise.
\<close>

definition trusted_markup :: "char \<Rightarrow> export_config \<Rightarrow> nat" where
  "trusted_markup c config =
     (if allowUnsafeHtml config = Some True
      then count_list (or_else (customHeader config) []) c
           + count_list (or_else (customFooter config) []) c
      else 0)"

text \<open>
  A text in which no bold element opens, and whose end cannot become the start of one when
  more text follows.
\<close>

definition no_bold :: "string \<Rightarrow> bool" where
  "no_bold s = (\<not> sublist ''<b>'' s \<and> \<not> suffix ''<'' s \<and> \<not> suffix ''<b'' s)"

section \<open>The table hook\<close>

subsection \<open>State and properties\<close>

datatype sort_direction = Asc | Desc

record sort_state =
  sort_column :: "string option"
  sort_direction :: "sort_direction option"

record column_filter =
  filter_value :: jsval
  filter_operator :: string

type_synonym filter_state = "(string \<times> column_filter) list"

record server_search_state =
  search_term :: string
  search_fields :: "string list"

record search_criteria =
  criteria_field :: string
  criteria_value :: string
  criteria_operator :: string

record advanced_search_state =
  criteria :: "search_criteria list"
  matchAll :: bool

record fetch_data_params =
  fetch_page :: nat
  fetch_rowsPerPage :: nat
  fetch_sort :: sort_state
  fetch_filters :: filter_state
  fetch_search :: server_search_state
  fetch_advancedSearch :: "advanced_search_state option"

text \<open>
  The promise of \<^verbatim>\<open>onFetchData\<close> settles: \<open>Inl\<close> is a rejection with its reason,
  \<open>Inr\<close> the response \<^verbatim>\<open>{ data, totalCount }\<close>.
\<close>

type_synonym fetch_outcome = "string + (jsval list \<times> nat)"

record props =
  propData :: "jsval list"
  columns :: "column list"
  propTotalCount :: "nat option"
  propPage :: "nat option"
  propRowsPerPage :: "nat option"
  propSort :: "sort_state option"
  propFilters :: "filter_state option"
  propClientFilterTerm :: "string option"
  propSearchTerm :: "string option"
  propServerSearch :: "server_search_state option"
  propAdvancedSearch :: "advanced_search_state option"
  propSelectedRows :: "jsval list option"
  clientFilterEnabled :: "bool option"
  filterMode :: "string option"
  selectionMode :: "string option"
  doubleClickSelectsOnly :: "bool option"
  selectAllScopeConfig :: "string option"
  onSelectionChange :: bool
  onFetchData :: "(fetch_data_params \<Rightarrow> fetch_outcome) option"
  rowKeyField :: string

record hook_state =
  internalPage :: nat
  internalRowsPerPage :: nat
  internalSort :: sort_state
  internalFilters :: filter_state
  internalClientFilterTerm :: string
  internalServerSearch :: server_search_state
  internalAdvancedSearch :: advanced_search_state
  internalSelectedRows :: "jsval list"
  serverLoading :: bool
  serverData :: "jsval list"
  serverTotalCount :: nat

text \<open>What a handler does besides updating the hook's own state.\<close>

datatype effect =
    SelectionChanged "jsval list"
  | ConsoleError string string

text \<open>How the promise returned by an asynchronous handler settles.\<close>

datatype completion = Resolved | Rejected string

subsection \<open>Controlled and uncontrolled resolution\<close>

definition page :: "props \<Rightarrow> hook_state \<Rightarrow> nat" where
  "page p s = (case propPage p of Some v \<Rightarrow> v | None \<Rightarrow> internalPage s)"

definition rowsPerPage :: "props \<Rightarrow> hook_state \<Rightarrow> nat" where
  "rowsPerPage p s = (case propRowsPerPage p of Some v \<Rightarrow> v | None \<Rightarrow> internalRowsPerPage s)"

definition sortOf :: "props \<Rightarrow> hook_state \<Rightarrow> sort_state" where
  "sortOf p s = (case propSort p of Some v \<Rightarrow> v | None \<Rightarrow> internalSort s)"

definition filters :: "props \<Rightarrow> hook_state \<Rightarrow> filter_state" where
  "filters p s = (case propFilters p of Some v \<Rightarrow> v | None \<Rightarrow> internalFilters s)"

definition clientFilterTerm :: "props \<Rightarrow> hook_state \<Rightarrow> string" where
  "clientFilterTerm p s =
     (case propClientFilterTerm p of
        Some v \<Rightarrow> v
      | None \<Rightarrow> (case propSearchTerm p of Some v \<Rightarrow> v | None \<Rightarrow> internalClientFilterTerm s))"

definition serverSearch :: "props \<Rightarrow> hook_state \<Rightarrow> server_search_state" where
  "serverSearch p s = (case propServerSearch p of Some v \<Rightarrow> v | None \<Rightarrow> internalServerSearch s)"

definition advancedSearch :: "props \<Rightarrow> hook_state \<Rightarrow> advanced_search_state" where
  "advancedSearch p s =
     (case propAdvancedSearch p of Some v \<Rightarrow> v | None \<Rightarrow> internalAdvancedSearch s)"

definition selectedRows :: "props \<Rightarrow> hook_state \<Rightarrow> jsval list" where
  "selectedRows p s = (case propSelectedRows p of Some v \<Rightarrow> v | None \<Rightarrow> internalSelectedRows s)"

definition isServerSide :: "props \<Rightarrow> bool" where
  "isServerSide p = (onFetchData p \<noteq> None)"

subsection \<open>Client-side search\<close>

text \<open>
  The leaf strings of a value. The visited set of the source only cuts cycles and repeated
  references, which data values of this model do not have.
\<close>

fun extractAllValues :: "host \<Rightarrow> jsval \<Rightarrow> string list" where
  "extractAllValues h JNull = []"
| "extractAllValues h JUndefined = []"
| "extractAllValues h (JStr s) = [s]"
| "extractAllValues h (JNum n) = [js_string h (JNum n)]"
| "extractAllValues h (JBool b) = [js_string h (JBool b)]"
| "extractAllValues h (JDate t p) = [dateToISOString h t, dateToLocaleDateString h t]"
| "extractAllValues h (JArr xs p) = concat (map (extractAllValues h) xs)"
| "extractAllValues h (JObj ps p) = concat (map (\<lambda>(k, v). extractAllValues h v) ps)"
| "extractAllValues h (JFun src) = []"

definition matchesSearch :: "host \<Rightarrow> column list \<Rightarrow> jsval \<Rightarrow> string \<Rightarrow> bool" where
  "matchesSearch h cols row searchLower =
     (list_ex (\<lambda>col. let val = getNestedValue row (col_id col)
                     in val \<noteq> JNull \<and> val \<noteq> JUndefined
                        \<and> str_includes (toLowerCase (js_string h val)) searchLower)
              (filter (\<lambda>col. searchable col \<noteq> Some False) cols)
      \<or> list_ex (\<lambda>v. str_includes (toLowerCase v) searchLower) (extractAllValues h row))"

subsection \<open>Column filters\<close>

text \<open>One entry of \<^verbatim>\<open>Object.entries(filters)\<close> tested on one row.\<close>

definition filterEntry :: "host \<Rightarrow> jsval \<Rightarrow> string \<times> column_filter \<Rightarrow> bool" where
  "filterEntry h row entry =
     (let columnId = fst entry;
          flt = snd entry;
          val = getNestedValue row columnId;
          strVal = toLowerCase (js_string h (if nullish val then JStr [] else val));
          strFilter = toLowerCase (js_string h (if nullish (filter_value flt) then JStr []
                                                else filter_value flt));
          op = filter_operator flt
      in if op = ''equals'' then js_string h val = js_string h (filter_value flt)
         else if op = ''contains'' then str_includes strVal strFilter
         else if op = ''startsWith'' then startsWith strVal strFilter
         else if op = ''endsWith'' then endsWith strVal strFilter
         else if op = ''greaterThan'' then num_gt (js_number h val) (js_number h (filter_value flt))
         else if op = ''lessThan'' then num_lt (js_number h val) (js_number h (filter_value flt))
         else if op = ''isEmpty'' then val = JNull \<or> val = JUndefined \<or> val = JStr []
         else if op = ''isNotEmpty'' then val \<noteq> JNull \<and> val \<noteq> JUndefined \<and> val \<noteq> JStr []
         else True)"


subsection \<open>Sorting\<close>

text \<open>The comparator handed to \<^verbatim>\<open>result.sort\<close>.\<close>

definition sortComparator :: "host \<Rightarrow> string \<Rightarrow> sort_direction \<Rightarrow> jsval \<Rightarrow> jsval \<Rightarrow> int" where
  "sortComparator h col dir a b =
     (let aVal = getNestedValue a col;
          bVal = getNestedValue b col;
          cmp = (if aVal = JNull \<or> aVal = JUndefined then 1
                 else if bVal = JNull \<or> bVal = JUndefined then - 1
                 else (case (aVal, bVal) of
                         (JStr x, JStr y) \<Rightarrow> localeCompare h x y
                       | (JNum x, JNum y) \<Rightarrow> x - y
                       | _ \<Rightarrow> localeCompare h (js_string h aVal) (js_string h bVal)))
      in if dir = Desc then - cmp else cmp)"

text \<open>
  \<^verbatim>\<open>Array.prototype.sort\<close> with a comparator: a stable sort, here by insertion. An
  element goes before the first one it does not exceed, so elements that compare equal keep
  their order. The language fixes the result only when the comparator is consistent;
  otherwise the order is left to the engine and this is one engine.
\<close>

fun insert_by :: "('a \<Rightarrow> 'a \<Rightarrow> int) \<Rightarrow> 'a \<Rightarrow> 'a list \<Rightarrow> 'a list" where
  "insert_by cmp x [] = [x]"
| "insert_by cmp x (y # ys) = (if cmp x y \<le> 0 then x # y # ys else y # insert_by cmp x ys)"

definition array_sort :: "('a \<Rightarrow> 'a \<Rightarrow> int) \<Rightarrow> 'a list \<Rightarrow> 'a list" where
  "array_sort cmp xs = foldr (insert_by cmp) xs []"

subsection \<open>Data processing\<close>

definition processedData :: "host \<Rightarrow> props \<Rightarrow> hook_state \<Rightarrow> jsval list" where
  "processedData h p s =
     (if isServerSide p then serverData s
      else
        let result = propData p;
            result = (if clientFilterTerm p s \<noteq> [] \<and> clientFilterEnabled p \<noteq> Some False
                      then filter (\<lambda>row. matchesSearch h (columns p) row
                                            (toLowerCase (clientFilterTerm p s))) result
                      else result);
            result = (if filters p s \<noteq> [] \<and> filterMode p \<noteq> Some ''server''
                      then filter (\<lambda>row. list_all (filterEntry h row) (filters p s)) result
                      else result);
            result = (if truthy (sort_column (sortOf p s)) \<and> sort_direction (sortOf p s) \<noteq> None
                      then array_sort (sortComparator h (the (sort_column (sortOf p s)))
                                                        (the (sort_direction (sortOf p s)))) result
                      else result)
        in result)"

definition totalCount :: "host \<Rightarrow> props \<Rightarrow> hook_state \<Rightarrow> nat" where
  "totalCount h p s =
     (if isServerSide p then (case propTotalCount p of Some n \<Rightarrow> n | None \<Rightarrow> serverTotalCount s)
      else length (processedData h p s))"

text \<open>
  \<^verbatim>\<open>Math.ceil(totalCount / rowsPerPage)\<close>; with no rows per page the quotient is not a
  finite number and the result is \<open>None\<close>.
\<close>

definition totalPages :: "host \<Rightarrow> props \<Rightarrow> hook_state \<Rightarrow> nat option" where
  "totalPages h p s =
     (if rowsPerPage p s = 0 then None
      else Some ((totalCount h p s + rowsPerPage p s - 1) div rowsPerPage p s))"

text \<open>\<^verbatim>\<open>xs.slice(start, end)\<close> for indices that are not negative.\<close>

definition slice :: "'a list \<Rightarrow> nat \<Rightarrow> nat \<Rightarrow> 'a list" where
  "slice xs start end = take (end - start) (drop start xs)"

definition paginatedData :: "host \<Rightarrow> props \<Rightarrow> hook_state \<Rightarrow> jsval list" where
  "paginatedData h p s =
     (if isServerSide p then processedData h p s
      else let start = page p s * rowsPerPage p s
           in slice (processedData h p s) start (start + rowsPerPage p s))"

subsection \<open>Server-side fetching\<close>

definition fetchParams :: "props \<Rightarrow> hook_state \<Rightarrow> fetch_data_params" where
  "fetchParams p s =
     \<lparr> fetch_page = page p s,
       fetch_rowsPerPage = rowsPerPage p s,
       fetch_sort = sortOf p s,
       fetch_filters = filters p s,
       fetch_search = serverSearch p s,
       fetch_advancedSearch =
         (if length (criteria (advancedSearch p s)) > 0 then Some (advancedSearch p s) else None) \<rparr>"

text \<open>
  \<^verbatim>\<open>fetchServerData\<close> from the call to the settling of its own promise: the state it
  leaves, what it printed, and how its promise settles. The loading flag is raised before
  the request and lowered in the \<^verbatim>\<open>finally\<close> block.
\<close>

definition fetchServerData :: "props \<Rightarrow> hook_state \<Rightarrow> hook_state \<times> effect list \<times> completion" where
  "fetchServerData p s =
     (case onFetchData p of
        None \<Rightarrow> (s, [], Resolved)
      | Some fetch \<Rightarrow>
          let s1 = s\<lparr>serverLoading := True\<rparr>
          in (case fetch (fetchParams p s) of
                Inr res \<Rightarrow>
                  (s1\<lparr>serverData := fst res, serverTotalCount := snd res, serverLoading := False\<rparr>,
                   [], Resolved)
              | Inl err \<Rightarrow>
                  (s1\<lparr>serverLoading := False\<rparr>,
                   [ConsoleError ''[DataTable] Failed to fetch server data:'' err], Resolved)))"

text \<open>
  What the code that uses the hook can observe of such a call: the state the hook returns,
  the callbacks it invoked and the settling of its promise. The console is not among them.
\<close>

fun is_callback :: "effect \<Rightarrow> bool" where
  "is_callback (SelectionChanged selection) = True"
| "is_callback (ConsoleError label reason) = False"

definition caller_view :: "hook_state \<times> effect list \<times> completion \<Rightarrow> hook_state \<times> effect list \<times> completion" where
  "caller_view r = (fst r, filter is_callback (fst (snd r)), snd (snd r))"

subsection \<open>Selection\<close>

definition getRowKey :: "props \<Rightarrow> jsval \<Rightarrow> jsval" where
  "getRowKey p row = js_get row (rowKeyField p)"

definition isRowSelected :: "props \<Rightarrow> hook_state \<Rightarrow> jsval \<Rightarrow> bool" where
  "isRowSelected p s row =
     list_ex (\<lambda>r. strict_eq (js_get r (rowKeyField p)) (getRowKey p row)) (selectedRows p s)"

text \<open>
  The end of every selection handler: the new selection goes to the caller's
  \<^verbatim>\<open>onSelectionChange\<close> when there is one, else into the hook's own state.
\<close>

definition commitSelection :: "props \<Rightarrow> hook_state \<Rightarrow> jsval list \<Rightarrow> hook_state \<times> effect list" where
  "commitSelection p s newSelection =
     (if onSelectionChange p then (s, [SelectionChanged newSelection])
      else (s\<lparr>internalSelectedRows := newSelection\<rparr>, []))"

definition handleSelectionChange :: "props \<Rightarrow> hook_state \<Rightarrow> jsval \<Rightarrow> hook_state \<times> effect list" where
  "handleSelectionChange p s row =
     (let key = getRowKey p row;
          alreadySelected = list_ex (\<lambda>r. strict_eq (js_get r (rowKeyField p)) key) (selectedRows p s);
          newSelection =
            (if selectionMode p = Some ''single''
             then (if alreadySelected then [] else [row])
             else (if alreadySelected
                   then filter (\<lambda>r. \<not> strict_eq (js_get r (rowKeyField p)) key) (selectedRows p s)
                   else selectedRows p s @ [row]))
      in commitSelection p s newSelection)"

definition handleDoubleClickSelection :: "props \<Rightarrow> hook_state \<Rightarrow> jsval \<Rightarrow> hook_state \<times> effect list" where
  "handleDoubleClickSelection p s row =
     (if doubleClickSelectsOnly p \<noteq> Some False then commitSelection p s [row] else (s, []))"

definition selectAllScope :: "host \<Rightarrow> props \<Rightarrow> hook_state \<Rightarrow> jsval list" where
  "selectAllScope h p s =
     (if selectAllScopeConfig p = Some ''all'' then processedData h p s else paginatedData h p s)"

definition handleSelectAll :: "host \<Rightarrow> props \<Rightarrow> hook_state \<Rightarrow> bool \<Rightarrow> hook_state \<times> effect list" where
  "handleSelectAll h p s checked =
     commitSelection p s (if checked then selectAllScope h p s else [])"

subsection \<open>Rows without a value\<close>

text \<open>
  A row is missing a column when the value resolved at the column is \<^verbatim>\<open>null\<close> or
  \<^verbatim>\<open>undefined\<close>. The missing rows come last when every row from the first missing one
  on is missing, and first when every row from the first present one on is present.
\<close>

definition missing :: "string \<Rightarrow> jsval \<Rightarrow> bool" where
  "missing col row = nullish (getNestedValue row col)"

definition missing_last :: "string \<Rightarrow> jsval list \<Rightarrow> bool" where
  "missing_last col rows = list_all (missing col) (dropWhile (\<lambda>r. \<not> missing col r) rows)"

definition missing_first :: "string \<Rightarrow> jsval list \<Rightarrow> bool" where
  "missing_first col rows = list_all (\<lambda>r. \<not> missing col r) (dropWhile (missing col) rows)"

section \<open>Sample inputs\<close>

text \<open>
  One concrete host, used where a property is evaluated on an example: strings compare by
  code unit, numerals are the decimal integers, and the formats are fixed texts.
\<close>

fun compare_units :: "string \<Rightarrow> string \<Rightarrow> int" where
  "compare_units [] [] = 0"
| "compare_units [] (y # ys) = - 1"
| "compare_units (x # xs) [] = 1"
| "compare_units (x # xs) (y # ys) =
     (if x = y then compare_units xs ys
      else if (of_char x :: nat) < of_char y then - 1 else 1)"

definition decimal_number :: "string \<Rightarrow> int option" where
  "decimal_number s =
     (if s = [] then Some 0
      else if list_all is_digit s then Some (int (digits_value 0 s))
      else if hd s = CHR ''-'' \<and> tl s \<noteq> [] \<and> list_all is_digit (tl s)
        then Some (- int (digits_value 0 (tl s)))
      else None)"

text \<open>A rendering of \<^verbatim>\<open>JSON.stringify\<close> for strings that need no escapes.\<close>

fun json_text :: "jsval \<Rightarrow> string" where
  \<open>json_text JUndefined = ''null''\<close>
| \<open>json_text JNull = ''null''\<close>
| \<open>json_text (JBool b) = (if b then ''true'' else ''false'')\<close>
| \<open>json_text (JNum n) = int_to_string n\<close>
| \<open>json_text (JStr s) = ''"'' @ s @ ''"''\<close>
| \<open>json_text (JFun src) = ''null''\<close>
| \<open>json_text (JDate t p) = ''"1970-01-01T00:00:00.000Z"''\<close>
| \<open>json_text (JArr xs p) = ''['' @ join_with '','' (map json_text xs) @ '']''\<close>
| \<open>json_text (JObj ps p) =
     ''{'' @ join_with '','' (map (\<lambda>(k, v). ''"'' @ k @ ''":'' @ json_text v) ps) @ ''}''\<close>

definition sample_host :: host where
  "sample_host =
     \<lparr> localeCompare = compare_units,
       dateToString = (\<lambda>t. ''Thu Jan 01 1970''),
       dateToISOString = (\<lambda>t. ''1970-01-01T00:00:00.000Z''),
       dateToLocaleDateString = (\<lambda>t. ''1/1/1970''),
       stringToNumber = decimal_number,
       jsonStringify = json_text,
       nowLocaleString = ''1/1/2026, 10:00:00 AM'' \<rparr>"

text \<open>One exported column and an export configuration with markup in its texts.\<close>

definition sample_column :: column where
  "sample_column =
     \<lparr> col_id = ''name'', col_label = ''Name'', searchable = None, hidden = None,
       exportable = None, exportFormat = None \<rparr>"

definition sample_config :: export_config where
  "sample_config =
     \<lparr> filename = None, title = Some ''T<1>'', subtitle = None, includeHeaders = None,
       customHeader = Some ''<b>Hi</b>'', customFooter = None, allowUnsafeHtml = None \<rparr>"

text \<open>A table with no configuration at all, and the state the hook starts in.\<close>

definition bare_props :: props where
  "bare_props =
     \<lparr> propData = [], columns = [], propTotalCount = None, propPage = None,
       propRowsPerPage = None, propSort = None, propFilters = None,
       propClientFilterTerm = None, propSearchTerm = None, propServerSearch = None,
       propAdvancedSearch = None, propSelectedRows = None, clientFilterEnabled = None,
       filterMode = None, selectionMode = None, doubleClickSelectsOnly = None,
       selectAllScopeConfig = None, onSelectionChange = False, onFetchData = None,
       rowKeyField = ''id'' \<rparr>"

definition initial_state :: hook_state where
  "initial_state =
     \<lparr> internalPage = 0, internalRowsPerPage = 12,
       internalSort = \<lparr> sort_column = None, sort_direction = None \<rparr>,
       internalFilters = [], internalClientFilterTerm = [],
       internalServerSearch = \<lparr> search_term = [], search_fields = [] \<rparr>,
       internalAdvancedSearch = \<lparr> criteria = [], matchAll = True \<rparr>,
       internalSelectedRows = [], serverLoading = False, serverData = [],
       serverTotalCount = 0 \<rparr>"

text \<open>The row \<^verbatim>\<open>{ id: i }\<close> and the rows with ids 1 to n.\<close>

definition id_row :: "nat \<Rightarrow> jsval" where
  "id_row i = JObj [(''id'', JNum (int i))] JNull"

definition id_rows :: "nat \<Rightarrow> jsval list" where
  "id_rows n = map id_row [1..<Suc n]"

section \<open>Properties\<close>

subsection \<open>Path resolution\<close>

lemma resolve_parts_banned:
  "\<exists>seg \<in> set parts. seg \<in> BANNED_KEYS \<Longrightarrow>
   \<exists>rd. resolve_parts cur parts reads = (JUndefined, reads @ rd) \<and>
          prefix rd (takeWhile (\<lambda>seg. seg \<notin> BANNED_KEYS) parts)"
proof (induction parts arbitrary: cur reads)
  case Nil
  then show ?case by simp
next
  case (Cons part rest)
  show ?case
  proof (cases "part \<in> BANNED_KEYS")
    case True
    then show ?thesis by simp
  next
    case notbanned: False
    with Cons.prems have later: "\<exists>seg \<in> set rest. seg \<in> BANNED_KEYS" by auto
    show ?thesis
    proof (cases "cur = JNull \<or> cur = JUndefined \<or> typeof cur \<noteq> ''object''")
      case True
      with notbanned show ?thesis by simp
    next
      case False
      from Cons.IH [OF later, of "js_get cur part" "reads @ [part]"]
      obtain rd where d: "resolve_parts (js_get cur part) rest (reads @ [part])
                              = (JUndefined, (reads @ [part]) @ rd)"
        and p: "prefix rd (takeWhile (\<lambda>seg. seg \<notin> BANNED_KEYS) rest)" by blast
      from False notbanned d p show ?thesis
        by (intro exI [of _ "part # rd"]) simp
    qed
  qed
qed

text \<open>
  The guarded reader of version 2.0.0. Whenever some segment of the path is one of
  \<^verbatim>\<open>__proto__\<close>, \<^verbatim>\<open>constructor\<close>, \<^verbatim>\<open>prototype\<close>, \<^verbatim>\<open>getNestedValue\<close> answers
  \<^verbatim>\<open>undefined\<close> for every value, whatever its prototype chain holds. The property reads it performed are an initial part of the
  segments before the first banned one: no banned key is ever read and nothing after it is
  evaluated. The function is total on data values, so it returns rather than throws.
\<close>

theorem getNestedValue_banned_undefined:
  assumes "\<exists>seg \<in> set (split_dot path). seg \<in> BANNED_KEYS"
  shows "getNestedValue obj path = JUndefined
       \<and> prefix (snd (getNestedValue_reads obj path))
                (takeWhile (\<lambda>seg. seg \<notin> BANNED_KEYS) (split_dot path))
       \<and> set (snd (getNestedValue_reads obj path)) \<inter> BANNED_KEYS = {}"
proof -
  from resolve_parts_banned [OF assms, of obj "[]"]
  obtain rd where d: "resolve_parts obj (split_dot path) [] = (JUndefined, rd)"
    and p: "prefix rd (takeWhile (\<lambda>seg. seg \<notin> BANNED_KEYS) (split_dot path))" by auto
  from p have "set rd \<subseteq> set (takeWhile (\<lambda>seg. seg \<notin> BANNED_KEYS) (split_dot path))"
    by (rule set_mono_prefix)
  then have "set rd \<inter> BANNED_KEYS = {}"
    by (auto dest: set_takeWhileD)
  with d p show ?thesis
    by (simp add: getNestedValue_def getNestedValue_reads_def)
qed

theorem getNestedValue_banned_undefined_witness:
  "(\<exists>seg \<in> set (split_dot ''a.constructor.name''). seg \<in> BANNED_KEYS)
   \<and> js_get (js_get (JObj [(''a'', JObj [] (JObj [(''constructor'', JObj [(''name'', JStr ''polluted'')] JNull)] JNull))] JNull) ''a'') ''constructor''
        = JObj [(''name'', JStr ''polluted'')] JNull
   \<and> getNestedValue (JObj [(''a'', JObj [] (JObj [(''constructor'', JObj [(''name'', JStr ''polluted'')] JNull)] JNull))] JNull)
        ''a.constructor.name'' = JUndefined"
proof -
  have b: "\<exists>seg \<in> set (split_dot ''a.constructor.name''). seg \<in> BANNED_KEYS"
    by (simp add: BANNED_KEYS_def)
  show ?thesis
    using b getNestedValue_banned_undefined [OF b] by (simp add: js_get_def)
qed

text \<open>
  C1 does not hold of every \<^verbatim>\<open>getNestedValue\<close> of the repository. The documentation
  says that \<^verbatim>\<open>getNestedValue\<close> blocks the three segments, and the reader of version 2.0.0
  does; the reader of version 1.0.0 in \<^verbatim>\<open>src/exportUtils.ts\<close> has no such check. For a
  row whose field \<^verbatim>\<open>a\<close> inherits a \<^verbatim>\<open>constructor\<close> property with the name
  \<^verbatim>\<open>polluted\<close>, and the path \<^verbatim>\<open>a.constructor.name\<close>, it walks through the banned segment
  and returns \<^verbatim>\<open>polluted\<close>, where the guarded reader returns \<^verbatim>\<open>undefined\<close>.
\<close>

theorem getNestedValue_legacy_polluted:
  "(\<exists>seg \<in> set (split_dot ''a.constructor.name''). seg \<in> BANNED_KEYS)
   \<and> (\<forall>builtin. getNestedValue_legacy builtin
           (JObj [(''a'', JObj [] (JObj [(''constructor'', JObj [(''name'', JStr ''polluted'')] JNull)]
                                       JNull))] JNull)
           ''a.constructor.name'' = JStr ''polluted'')
   \<and> getNestedValue
         (JObj [(''a'', JObj [] (JObj [(''constructor'', JObj [(''name'', JStr ''polluted'')] JNull)]
                                     JNull))] JNull)
         ''a.constructor.name'' = JUndefined"
  by (simp add: getNestedValue_legacy_def optional_member_def js_get_def BANNED_KEYS_def
      getNestedValue_def getNestedValue_reads_def)

subsection \<open>Escaping\<close>

lemma serialize_text_no_lt: "CHR ''<'' \<notin> set (serialize_text s)"
  by (induction s) (auto simp: serialize_text_def escape_char_def)

lemma serialize_text_no_gt: "CHR ''>'' \<notin> set (serialize_text s)"
  by (induction s) (auto simp: serialize_text_def escape_char_def)

lemma escapeHtml_no_lt: "CHR ''<'' \<notin> set (escapeHtml h v)"
  by (simp add: escapeHtml_def serialize_text_no_lt)

lemma escapeHtml_no_gt: "CHR ''>'' \<notin> set (escapeHtml h v)"
  by (simp add: escapeHtml_def serialize_text_no_gt)

text \<open>
  C6. \<^verbatim>\<open>escapeHtml\<close> gives the empty string for \<^verbatim>\<open>null\<close> and for \<^verbatim>\<open>undefined\<close>,
  not their names, and its output for \<^verbatim>\<open><script>x</script>\<close> is
  \<^verbatim>\<open>&lt;script&gt;x&lt;/script&gt;\<close>, which holds neither angle bracket.
\<close>

theorem escapeHtml_null_and_script:
  "escapeHtml h JNull = []
   \<and> escapeHtml h JUndefined = []
   \<and> escapeHtml h (JStr ''<script>x</script>'') = ''&lt;script&gt;x&lt;/script&gt;''
   \<and> CHR ''<'' \<notin> set (escapeHtml h (JStr ''<script>x</script>''))
   \<and> CHR ''>'' \<notin> set (escapeHtml h (JStr ''<script>x</script>''))"
  by (simp add: escapeHtml_def serialize_text_def escape_char_def)

subsection \<open>Resolved state\<close>

lemmas state_resolution =
  page_def rowsPerPage_def sortOf_def filters_def clientFilterTerm_def serverSearch_def
  advancedSearch_def selectedRows_def

subsection \<open>Clearing the selection\<close>

text \<open>
  C10. \<^verbatim>\<open>handleSelectAll(false)\<close> replaces the selection by the empty list, whatever was
  selected and whatever the scope: the caller's \<^verbatim>\<open>onSelectionChange\<close> receives the empty
  list, or the hook's own selection becomes empty, and then no row at all counts as
  selected, rows outside the current scope included.
\<close>

theorem handleSelectAll_unchecked_clears:
  "(onSelectionChange p \<longrightarrow> handleSelectAll h p s False = (s, [SelectionChanged []]))
   \<and> (\<not> onSelectionChange p \<longrightarrow>
        handleSelectAll h p s False = (s\<lparr>internalSelectedRows := []\<rparr>, []))
   \<and> (\<not> onSelectionChange p \<and> propSelectedRows p = None \<longrightarrow>
        selectedRows p (fst (handleSelectAll h p s False)) = []
        \<and> (\<forall>row. \<not> isRowSelected p (fst (handleSelectAll h p s False)) row))"
  by (simp add: handleSelectAll_def commitSelection_def selectedRows_def isRowSelected_def)

theorem handleSelectAll_unchecked_clears_witness:
  "\<not> onSelectionChange (bare_props\<lparr>propData := id_rows 3\<rparr>)
   \<and> propSelectedRows (bare_props\<lparr>propData := id_rows 3\<rparr>) = None
   \<and> isRowSelected (bare_props\<lparr>propData := id_rows 3\<rparr>)
        (initial_state\<lparr>internalRowsPerPage := 2, internalSelectedRows := [id_row 3]\<rparr>) (id_row 3)
   \<and> paginatedData sample_host (bare_props\<lparr>propData := id_rows 3\<rparr>)
        (initial_state\<lparr>internalRowsPerPage := 2, internalSelectedRows := [id_row 3]\<rparr>)
      = [id_row 1, id_row 2]
   \<and> selectedRows (bare_props\<lparr>propData := id_rows 3\<rparr>)
        (fst (handleSelectAll sample_host (bare_props\<lparr>propData := id_rows 3\<rparr>)
               (initial_state\<lparr>internalRowsPerPage := 2, internalSelectedRows := [id_row 3]\<rparr>) False)) = []
   \<and> \<not> isRowSelected (bare_props\<lparr>propData := id_rows 3\<rparr>)
        (fst (handleSelectAll sample_host (bare_props\<lparr>propData := id_rows 3\<rparr>)
               (initial_state\<lparr>internalRowsPerPage := 2, internalSelectedRows := [id_row 3]\<rparr>) False)) (id_row 3)"
proof -
  let ?p = "bare_props\<lparr>propData := id_rows 3\<rparr>"
  let ?s = "initial_state\<lparr>internalRowsPerPage := 2, internalSelectedRows := [id_row 3]\<rparr>"
  have a: "\<not> onSelectionChange ?p" "propSelectedRows ?p = None"
    by (simp_all add: bare_props_def)
  have b: "isRowSelected ?p ?s (id_row 3)"
    by (simp add: isRowSelected_def selectedRows_def bare_props_def initial_state_def
        getRowKey_def strict_eq_def)
  have c: "paginatedData sample_host ?p ?s = [id_row 1, id_row 2]"
    by (simp add: paginatedData_def processedData_def isServerSide_def bare_props_def
        initial_state_def clientFilterTerm_def filters_def sortOf_def truthy_def page_def
        rowsPerPage_def slice_def id_rows_def id_row_def upt_rec)
  from handleSelectAll_unchecked_clears [of ?p sample_host ?s] a b c show ?thesis
    by blast
qed

subsection \<open>A rejected fetch\<close>

text \<open>
  C9, as stated, fails: the failure is not reported to the code that uses the hook. After
  a rejected request the state the hook returns, the callbacks it invoked (none) and the
  settling of its promise (resolved) are what they are after a successful request that
  returns the rows and the total already held; only the console differs.
\<close>

theorem fetch_failure_not_surfaced_counterexample:
  "(\<lambda>q. Inl ''timeout'' :: fetch_outcome)
      (fetchParams (bare_props\<lparr>onFetchData := Some (\<lambda>q. Inl ''timeout'')\<rparr>)
         (initial_state\<lparr>serverData := id_rows 2, serverTotalCount := 30\<rparr>)) = Inl ''timeout''
   \<and> caller_view (fetchServerData (bare_props\<lparr>onFetchData := Some (\<lambda>q. Inl ''timeout'')\<rparr>)
                    (initial_state\<lparr>serverData := id_rows 2, serverTotalCount := 30\<rparr>))
       = caller_view (fetchServerData (bare_props\<lparr>onFetchData := Some (\<lambda>q. Inr (id_rows 2, 30))\<rparr>)
                    (initial_state\<lparr>serverData := id_rows 2, serverTotalCount := 30\<rparr>))
   \<and> snd (snd (fetchServerData (bare_props\<lparr>onFetchData := Some (\<lambda>q. Inl ''timeout'')\<rparr>)
                    (initial_state\<lparr>serverData := id_rows 2, serverTotalCount := 30\<rparr>))) = Resolved
   \<and> filter is_callback
         (fst (snd (fetchServerData (bare_props\<lparr>onFetchData := Some (\<lambda>q. Inl ''timeout'')\<rparr>)
                    (initial_state\<lparr>serverData := id_rows 2, serverTotalCount := 30\<rparr>)))) = []"
  by (simp add: caller_view_def fetchServerData_def initial_state_def)

text \<open>
  C9, amended. When the promise of \<^verbatim>\<open>onFetchData\<close> rejects, the failure is printed with
  \<^verbatim>\<open>console.error\<close> and swallowed: the promise of \<^verbatim>\<open>fetchServerData\<close> resolves, no
  callback is invoked and no state records the failure, so the caller sees what it would
  see after a request that returned the rows and the total already held. The loading flag
  ends lowered; the fetched rows, the fetched total, the page, the rows per page, the sort,
  the filters and the selection are what they were, so the table shows the page of the last
  successful fetch and the next request has the same parameters.
\<close>

theorem fetchServerData_rejection:
  assumes "onFetchData p = Some fetch" and "fetch (fetchParams p s) = Inl err"
  shows "snd (snd (fetchServerData p s)) = Resolved
       \<and> fst (snd (fetchServerData p s)) = [ConsoleError ''[DataTable] Failed to fetch server data:'' err]
       \<and> fst (fetchServerData p s) = s\<lparr>serverLoading := False\<rparr>
       \<and> serverLoading (fst (fetchServerData p s)) = False
       \<and> serverData (fst (fetchServerData p s)) = serverData s
       \<and> serverTotalCount (fst (fetchServerData p s)) = serverTotalCount s
       \<and> page p (fst (fetchServerData p s)) = page p s
       \<and> rowsPerPage p (fst (fetchServerData p s)) = rowsPerPage p s
       \<and> sortOf p (fst (fetchServerData p s)) = sortOf p s
       \<and> filters p (fst (fetchServerData p s)) = filters p s
       \<and> selectedRows p (fst (fetchServerData p s)) = selectedRows p s
       \<and> totalCount h p (fst (fetchServerData p s)) = totalCount h p s
       \<and> processedData h p (fst (fetchServerData p s)) = processedData h p s
       \<and> paginatedData h p (fst (fetchServerData p s)) = paginatedData h p s
       \<and> fetchParams p (fst (fetchServerData p s)) = fetchParams p s
       \<and> caller_view (fetchServerData p s) = (s\<lparr>serverLoading := False\<rparr>, [], Resolved)
       \<and> (\<forall>ok. ok (fetchParams p s) = Inr (serverData s, serverTotalCount s) \<longrightarrow>
              caller_view (fetchServerData (p\<lparr>onFetchData := Some ok\<rparr>) s)
                = caller_view (fetchServerData p s))"
proof -
  have st: "fst (fetchServerData p s) = s\<lparr>serverLoading := False\<rparr>"
    using assms by (simp add: fetchServerData_def)
  have rest: "snd (fetchServerData p s)
                = ([ConsoleError ''[DataTable] Failed to fetch server data:'' err], Resolved)"
    using assms by (simp add: fetchServerData_def)
  have srv: "isServerSide p" using assms(1) by (simp add: isServerSide_def)
  have view: "caller_view (fetchServerData p s) = (s\<lparr>serverLoading := False\<rparr>, [], Resolved)"
    by (simp add: caller_view_def st rest)
  have same: "\<forall>ok. ok (fetchParams p s) = Inr (serverData s, serverTotalCount s) \<longrightarrow>
              caller_view (fetchServerData (p\<lparr>onFetchData := Some ok\<rparr>) s)
                = caller_view (fetchServerData p s)"
  proof (intro allI impI)
    fix ok :: "fetch_data_params \<Rightarrow> fetch_outcome"
    assume ok: "ok (fetchParams p s) = Inr (serverData s, serverTotalCount s)"
    have "fetchParams (p\<lparr>onFetchData := Some ok\<rparr>) s = fetchParams p s"
      by (simp add: fetchParams_def state_resolution)
    with ok have "fetchServerData (p\<lparr>onFetchData := Some ok\<rparr>) s
                    = (s\<lparr>serverLoading := False\<rparr>, [], Resolved)"
      by (simp add: fetchServerData_def)
    then have "caller_view (fetchServerData (p\<lparr>onFetchData := Some ok\<rparr>) s)
                 = (s\<lparr>serverLoading := False\<rparr>, [], Resolved)"
      by (simp add: caller_view_def)
    then show "caller_view (fetchServerData (p\<lparr>onFetchData := Some ok\<rparr>) s)
                 = caller_view (fetchServerData p s)"
      by (simp only: view)
  qed
  have main: "snd (snd (fetchServerData p s)) = Resolved
       \<and> fst (snd (fetchServerData p s)) = [ConsoleError ''[DataTable] Failed to fetch server data:'' err]
       \<and> fst (fetchServerData p s) = s\<lparr>serverLoading := False\<rparr>
       \<and> serverLoading (fst (fetchServerData p s)) = False
       \<and> serverData (fst (fetchServerData p s)) = serverData s
       \<and> serverTotalCount (fst (fetchServerData p s)) = serverTotalCount s
       \<and> page p (fst (fetchServerData p s)) = page p s
       \<and> rowsPerPage p (fst (fetchServerData p s)) = rowsPerPage p s
       \<and> sortOf p (fst (fetchServerData p s)) = sortOf p s
       \<and> filters p (fst (fetchServerData p s)) = filters p s
       \<and> selectedRows p (fst (fetchServerData p s)) = selectedRows p s
       \<and> totalCount h p (fst (fetchServerData p s)) = totalCount h p s
       \<and> processedData h p (fst (fetchServerData p s)) = processedData h p s
       \<and> paginatedData h p (fst (fetchServerData p s)) = paginatedData h p s
       \<and> fetchParams p (fst (fetchServerData p s)) = fetchParams p s"
    unfolding st rest using srv
    by (simp add: state_resolution totalCount_def processedData_def paginatedData_def
        fetchParams_def split: option.split)
  from main view same show ?thesis by blast
qed


theorem fetchServerData_rejection_witness:
  "onFetchData (bare_props\<lparr>onFetchData := Some (\<lambda>q. Inl ''timeout'')\<rparr>) = Some (\<lambda>q. Inl ''timeout'')
   \<and> fst (fetchServerData (bare_props\<lparr>onFetchData := Some (\<lambda>q. Inl ''timeout'')\<rparr>)
            (initial_state\<lparr>internalPage := 2, serverLoading := True, serverData := id_rows 2,
                           serverTotalCount := 30\<rparr>))
      = initial_state\<lparr>internalPage := 2, serverLoading := False, serverData := id_rows 2,
                       serverTotalCount := 30\<rparr>
   \<and> paginatedData sample_host (bare_props\<lparr>onFetchData := Some (\<lambda>q. Inl ''timeout'')\<rparr>)
        (fst (fetchServerData (bare_props\<lparr>onFetchData := Some (\<lambda>q. Inl ''timeout'')\<rparr>)
            (initial_state\<lparr>internalPage := 2, serverLoading := True, serverData := id_rows 2,
                           serverTotalCount := 30\<rparr>)))
      = [id_row 1, id_row 2]"
proof -
  let ?p = "bare_props\<lparr>onFetchData := Some (\<lambda>q. Inl ''timeout'')\<rparr>"
  let ?s = "initial_state\<lparr>internalPage := 2, serverLoading := True, serverData := id_rows 2,
                           serverTotalCount := 30\<rparr>"
  have a: "onFetchData ?p = Some (\<lambda>q. Inl ''timeout'')" by simp
  have c: "paginatedData sample_host ?p ?s = [id_row 1, id_row 2]"
    by (simp add: paginatedData_def processedData_def isServerSide_def id_rows_def id_row_def upt_rec)
  have e: "fst (fetchServerData ?p ?s) = ?s\<lparr>serverLoading := False\<rparr>
        \<and> paginatedData sample_host ?p (fst (fetchServerData ?p ?s)) = paginatedData sample_host ?p ?s"
    using fetchServerData_rejection [where p = ?p and s = ?s and h = sample_host
        and fetch = "\<lambda>q. Inl ''timeout''" and err = "''timeout''"] a
    by blast
  have r: "?s\<lparr>serverLoading := False\<rparr>
           = initial_state\<lparr>internalPage := 2, serverLoading := False, serverData := id_rows 2,
                            serverTotalCount := 30\<rparr>"
    by simp
  show ?thesis
  proof (intro conjI)
    show "onFetchData ?p = Some (\<lambda>q. Inl ''timeout'')" by (rule a)
    show "fst (fetchServerData ?p ?s)
          = initial_state\<lparr>internalPage := 2, serverLoading := False, serverData := id_rows 2,
                           serverTotalCount := 30\<rparr>"
      by (rule trans [OF conjunct1 [OF e] r])
    show "paginatedData sample_host ?p (fst (fetchServerData ?p ?s)) = [id_row 1, id_row 2]"
      by (rule trans [OF conjunct2 [OF e] c])
  qed
qed

subsection \<open>Pagination\<close>

lemma length_insert_by: "length (insert_by cmp x ys) = Suc (length ys)"
  by (induction ys) auto

lemma length_array_sort: "length (array_sort cmp xs) = length xs"
  by (induction xs) (auto simp: array_sort_def length_insert_by)

lemma processedData_length_le:
  "\<not> isServerSide p \<Longrightarrow> length (processedData h p s) \<le> length (propData p)"
  by (auto simp: processedData_def Let_def length_array_sort
      intro: le_trans [OF length_filter_le] le_trans [OF length_filter_le length_filter_le])

lemma processedData_unfiltered_length:
  "\<not> isServerSide p \<Longrightarrow> clientFilterTerm p s = [] \<Longrightarrow> filters p s = [] \<Longrightarrow>
   length (processedData h p s) = length (propData p)"
  by (simp add: processedData_def Let_def length_array_sort)

lemma resolution_page_independent:
  "rowsPerPage p (s\<lparr>internalPage := i\<rparr>) = rowsPerPage p s"
  "sortOf p (s\<lparr>internalPage := i\<rparr>) = sortOf p s"
  "filters p (s\<lparr>internalPage := i\<rparr>) = filters p s"
  "clientFilterTerm p (s\<lparr>internalPage := i\<rparr>) = clientFilterTerm p s"
  by (simp_all add: state_resolution split: option.split)

lemma processedData_page_independent:
  "processedData h p (s\<lparr>internalPage := i\<rparr>) = processedData h p s"
  by (simp add: processedData_def resolution_page_independent cong: if_cong)

lemma concat_pages: "concat (map (\<lambda>i. slice xs (i * n) (i * n + n)) [0..<k]) = take (k * n) xs"
proof (induction k)
  case 0
  then show ?case by simp
next
  case (Suc k)
  have "Suc k * n = k * n + n" by simp
  then have "take (Suc k * n) xs = take (k * n) xs @ take n (drop (k * n) xs)"
    by (simp only: take_add)
  with Suc show ?case by (simp add: slice_def)
qed

lemma paginatedData_local:
  "\<not> isServerSide p \<Longrightarrow> propPage p = None \<Longrightarrow>
   paginatedData h p (s\<lparr>internalPage := i\<rparr>)
     = slice (processedData h p s) (i * rowsPerPage p s) (i * rowsPerPage p s + rowsPerPage p s)"
  by (simp add: paginatedData_def processedData_page_independent page_def
      resolution_page_independent Let_def)

text \<open>
  C7. In local mode, with 137 rows supplied and 10 rows per page, the slices for the pages
  0 to 13 concatenated in order are the whole filtered and sorted collection, for every
  filter and sort state; a page index of 14 or more gives the empty page. When the filters
  keep every row (in particular when none is active) the collection has 137 rows, the page
  count is \<open>ceil(137/10) = 14\<close>, the pages 0 to 12 hold 10 rows each and page 13 holds the
  remaining 7.
\<close>

theorem pagination_roundtrip_137:
  assumes loc: "onFetchData p = None" and unc: "propPage p = None"
    and len: "length (propData p) = 137" and rpp: "rowsPerPage p s = 10"
  shows "concat (map (\<lambda>i. paginatedData h p (s\<lparr>internalPage := i\<rparr>)) [0..<14]) = processedData h p s
       \<and> (\<forall>i\<ge>14. paginatedData h p (s\<lparr>internalPage := i\<rparr>) = [])
       \<and> (clientFilterTerm p s = [] \<and> filters p s = [] \<longrightarrow> length (processedData h p s) = 137)
       \<and> (length (processedData h p s) = 137 \<longrightarrow>
            totalPages h p s = Some 14
            \<and> (\<forall>i<14. paginatedData h p (s\<lparr>internalPage := i\<rparr>) \<noteq> [])
            \<and> (\<forall>i<13. length (paginatedData h p (s\<lparr>internalPage := i\<rparr>)) = 10)
            \<and> length (paginatedData h p (s\<lparr>internalPage := 13\<rparr>)) = 7)"
proof -
  have srv: "\<not> isServerSide p" using loc by (simp add: isServerSide_def)
  have pg: "\<And>i. paginatedData h p (s\<lparr>internalPage := i\<rparr>)
                 = slice (processedData h p s) (i * 10) (i * 10 + 10)"
    using paginatedData_local [OF srv unc, where h = h and s = s] rpp by simp
  have le: "length (processedData h p s) \<le> 137"
    using processedData_length_le [OF srv, where h = h and s = s] len by simp
  have c1: "concat (map (\<lambda>i. paginatedData h p (s\<lparr>internalPage := i\<rparr>)) [0..<14]) = processedData h p s"
    using le by (simp only: pg concat_pages) simp
  have c2: "\<forall>i\<ge>14. paginatedData h p (s\<lparr>internalPage := i\<rparr>) = []"
    using le by (auto simp: pg slice_def)
  have c3: "clientFilterTerm p s = [] \<and> filters p s = [] \<longrightarrow> length (processedData h p s) = 137"
    using processedData_unfiltered_length [OF srv, where h = h and s = s] len by simp
  have c4: "length (processedData h p s) = 137 \<longrightarrow>
            totalPages h p s = Some 14
            \<and> (\<forall>i<14. paginatedData h p (s\<lparr>internalPage := i\<rparr>) \<noteq> [])
            \<and> (\<forall>i<13. length (paginatedData h p (s\<lparr>internalPage := i\<rparr>)) = 10)
            \<and> length (paginatedData h p (s\<lparr>internalPage := 13\<rparr>)) = 7"
    using srv rpp by (auto simp: totalPages_def totalCount_def pg slice_def)
  from c1 c2 c3 c4 show ?thesis by blast
qed

theorem pagination_roundtrip_137_witness:
  "onFetchData (bare_props\<lparr>propData := id_rows 137\<rparr>) = None
   \<and> propPage (bare_props\<lparr>propData := id_rows 137\<rparr>) = None
   \<and> length (propData (bare_props\<lparr>propData := id_rows 137\<rparr>)) = 137
   \<and> rowsPerPage (bare_props\<lparr>propData := id_rows 137\<rparr>) (initial_state\<lparr>internalRowsPerPage := 10\<rparr>) = 10
   \<and> totalPages sample_host (bare_props\<lparr>propData := id_rows 137\<rparr>)
        (initial_state\<lparr>internalRowsPerPage := 10\<rparr>) = Some 14
   \<and> concat (map (\<lambda>i. paginatedData sample_host (bare_props\<lparr>propData := id_rows 137\<rparr>)
                          (initial_state\<lparr>internalRowsPerPage := 10, internalPage := i\<rparr>)) [0..<14])
      = processedData sample_host (bare_props\<lparr>propData := id_rows 137\<rparr>)
          (initial_state\<lparr>internalRowsPerPage := 10\<rparr>)"
proof -
  let ?p = "bare_props\<lparr>propData := id_rows 137\<rparr>"
  let ?s = "initial_state\<lparr>internalRowsPerPage := 10\<rparr>"
  have a: "onFetchData ?p = None" "propPage ?p = None"
    by (simp_all add: bare_props_def)
  have b: "length (propData ?p) = 137" by (simp add: id_rows_def)
  have c: "rowsPerPage ?p ?s = 10" by (simp add: rowsPerPage_def bare_props_def)
  have d: "clientFilterTerm ?p ?s = [] \<and> filters ?p ?s = []"
    by (simp add: clientFilterTerm_def filters_def bare_props_def initial_state_def)
  from pagination_roundtrip_137 [OF a b c, where h = sample_host] a b c d show ?thesis
    by blast
qed

subsection \<open>Select all\<close>

lemma isRowSelected_iff:
  "isRowSelected p s row = (\<exists>r \<in> set (selectedRows p s). getRowKey p r = getRowKey p row)"
  by (simp add: isRowSelected_def list_ex_iff strict_eq_def getRowKey_def)

lemma distinct_key_slice:
  assumes d: "distinct (map key rows)" and i: "i < length rows"
  shows "(\<exists>r \<in> set (slice rows a b). key r = key (rows ! i)) = (a \<le> i \<and> i < b)"
proof
  assume "\<exists>r \<in> set (slice rows a b). key r = key (rows ! i)"
  then obtain r where r: "r \<in> set (take (b - a) (drop a rows))" and k: "key r = key (rows ! i)"
    by (auto simp: slice_def)
  from r obtain j where j: "j < length (take (b - a) (drop a rows))"
    and rj: "r = take (b - a) (drop a rows) ! j"
    by (auto simp: in_set_conv_nth)
  from j have jb: "j < b - a" and ja: "a + j < length rows" by auto
  from rj jb ja have rr: "r = rows ! (a + j)" by simp
  from k rr have "map key rows ! (a + j) = map key rows ! i" using ja i by simp
  moreover from d ja i have "(map key rows ! (a + j) = map key rows ! i) = (a + j = i)"
    by (intro nth_eq_iff_index_eq) simp_all
  ultimately have "a + j = i" by blast
  with jb show "a \<le> i \<and> i < b" by auto
next
  assume ab: "a \<le> i \<and> i < b"
  from ab i have l: "i - a < length (take (b - a) (drop a rows))" by auto
  from ab have "i - a < b - a" by arith
  then have "take (b - a) (drop a rows) ! (i - a) = drop a rows ! (i - a)" by (rule nth_take)
  also from ab i have "\<dots> = rows ! (a + (i - a))" by (intro nth_drop) simp
  also from ab have "\<dots> = rows ! i" by simp
  finally have "rows ! i = take (b - a) (drop a rows) ! (i - a)" by (rule sym)
  with l have "rows ! i \<in> set (slice rows a b)"
    unfolding slice_def by (metis nth_mem)
  then show "\<exists>r \<in> set (slice rows a b). key r = key (rows ! i)" by blast
qed

lemma id_rows_keys:
  "rowKeyField p = ''id'' \<Longrightarrow> map (getRowKey p) (id_rows n) = map (\<lambda>i. JNum (int i)) [1..<Suc n]"
  by (simp add: id_rows_def id_row_def getRowKey_def js_get_def)

lemma id_rows_distinct_keys:
  "rowKeyField p = ''id'' \<Longrightarrow> distinct (map (getRowKey p) (id_rows n))"
  by (simp add: id_rows_keys distinct_map inj_on_def)

lemma processedData_plain:
  "onFetchData p = None \<Longrightarrow> clientFilterTerm p s = [] \<Longrightarrow> filters p s = [] \<Longrightarrow>
   sort_column (sortOf p s) = None \<Longrightarrow> processedData h p s = propData p"
  by (simp add: processedData_def isServerSide_def truthy_def)

text \<open>
  C8. Local mode, selection owned by the hook, 25 rows in the filtered collection with
  pairwise different keys, 10 rows per page (3 pages), the second page showing (page index
  1). After \<^verbatim>\<open>handleSelectAll(true)\<close> with the scope \<^verbatim>\<open>'page'\<close> (the default) the
  selection is the 10 rows of that page, rows 11 to 20 (indices 10 to 19), and a row of the
  collection counts as selected exactly when it is one of them; with the scope \<^verbatim>\<open>'all'\<close>
  the selection is the whole collection and all 25 rows count as selected.
\<close>

theorem handleSelectAll_scope_25:
  assumes loc: "onFetchData p = None"
    and unc: "propSelectedRows p = None" "\<not> onSelectionChange p"
    and len: "length (processedData h p s) = 25"
    and keys: "distinct (map (getRowKey p) (processedData h p s))"
    and rpp: "rowsPerPage p s = 10" and pg: "page p s = 1"
  shows "totalPages h p s = Some 3
       \<and> (selectAllScopeConfig p \<noteq> Some ''all'' \<longrightarrow>
            selectedRows p (fst (handleSelectAll h p s True)) = slice (processedData h p s) 10 20
            \<and> length (selectedRows p (fst (handleSelectAll h p s True))) = 10
            \<and> (\<forall>i<25. isRowSelected p (fst (handleSelectAll h p s True)) (processedData h p s ! i)
                        = (10 \<le> i \<and> i < 20)))
       \<and> (selectAllScopeConfig p = Some ''all'' \<longrightarrow>
            selectedRows p (fst (handleSelectAll h p s True)) = processedData h p s
            \<and> (\<forall>i<25. isRowSelected p (fst (handleSelectAll h p s True)) (processedData h p s ! i)))"
proof -
  let ?rows = "processedData h p s"
  let ?s' = "fst (handleSelectAll h p s True)"
  have srv: "\<not> isServerSide p" using loc by (simp add: isServerSide_def)
  have tp: "totalPages h p s = Some 3"
    using srv rpp len by (simp add: totalPages_def totalCount_def)
  have sel: "selectedRows p ?s' = selectAllScope h p s"
    using unc by (simp add: handleSelectAll_def commitSelection_def selectedRows_def)
  have pgd: "paginatedData h p s = slice ?rows 10 20"
    using srv rpp pg by (simp add: paginatedData_def)
  have whole: "slice ?rows 0 25 = ?rows" using len by (simp add: slice_def)
  have page_case: "selectAllScopeConfig p \<noteq> Some ''all'' \<longrightarrow>
            selectedRows p ?s' = slice ?rows 10 20
            \<and> length (selectedRows p ?s') = 10
            \<and> (\<forall>i<25. isRowSelected p ?s' (?rows ! i) = (10 \<le> i \<and> i < 20))"
  proof (intro impI conjI allI)
    assume sc: "selectAllScopeConfig p \<noteq> Some ''all''"
    then show e: "selectedRows p ?s' = slice ?rows 10 20"
      by (simp add: sel selectAllScope_def pgd)
    then show "length (selectedRows p ?s') = 10" using len by (simp add: slice_def)
    fix i :: nat assume "i < 25"
    then have "i < length ?rows" using len by simp
    from distinct_key_slice [OF keys this, of 10 20]
    show "isRowSelected p ?s' (?rows ! i) = (10 \<le> i \<and> i < 20)"
      by (simp add: isRowSelected_iff e)
  qed
  have all_case: "selectAllScopeConfig p = Some ''all'' \<longrightarrow>
            selectedRows p ?s' = ?rows
            \<and> (\<forall>i<25. isRowSelected p ?s' (?rows ! i))"
  proof (intro impI conjI allI)
    assume sc: "selectAllScopeConfig p = Some ''all''"
    then show e: "selectedRows p ?s' = ?rows"
      by (simp add: sel selectAllScope_def)
    fix i :: nat assume "i < 25"
    then have "?rows ! i \<in> set ?rows" using len by simp
    then show "isRowSelected p ?s' (?rows ! i)"
      unfolding isRowSelected_iff e by blast
  qed
  from tp page_case all_case show ?thesis by blast
qed

theorem handleSelectAll_scope_25_witness:
  "(isRowSelected (bare_props\<lparr>propData := id_rows 25\<rparr>)
      (fst (handleSelectAll sample_host (bare_props\<lparr>propData := id_rows 25\<rparr>)
             (initial_state\<lparr>internalRowsPerPage := 10, internalPage := 1\<rparr>) True))
      (id_rows 25 ! 10)
    \<and> \<not> isRowSelected (bare_props\<lparr>propData := id_rows 25\<rparr>)
      (fst (handleSelectAll sample_host (bare_props\<lparr>propData := id_rows 25\<rparr>)
             (initial_state\<lparr>internalRowsPerPage := 10, internalPage := 1\<rparr>) True))
      (id_rows 25 ! 20))
   \<and> isRowSelected (bare_props\<lparr>propData := id_rows 25, selectAllScopeConfig := Some ''all''\<rparr>)
      (fst (handleSelectAll sample_host
             (bare_props\<lparr>propData := id_rows 25, selectAllScopeConfig := Some ''all''\<rparr>)
             (initial_state\<lparr>internalRowsPerPage := 10, internalPage := 1\<rparr>) True))
      (id_rows 25 ! 20)"
proof -
  let ?p = "bare_props\<lparr>propData := id_rows 25\<rparr>"
  let ?q = "bare_props\<lparr>propData := id_rows 25, selectAllScopeConfig := Some ''all''\<rparr>"
  let ?s = "initial_state\<lparr>internalRowsPerPage := 10, internalPage := 1\<rparr>"
  have st: "rowsPerPage ?p ?s = 10" "page ?p ?s = 1" "rowsPerPage ?q ?s = 10" "page ?q ?s = 1"
    by (simp_all add: rowsPerPage_def page_def bare_props_def)
  have pp: "processedData sample_host ?p ?s = id_rows 25"
    by (simp add: processedData_plain clientFilterTerm_def filters_def sortOf_def
        bare_props_def initial_state_def)
  have pq: "processedData sample_host ?q ?s = id_rows 25"
    by (simp add: processedData_plain clientFilterTerm_def filters_def sortOf_def
        bare_props_def initial_state_def)
  have len: "length (id_rows 25) = 25" by (simp add: id_rows_def)
  have kp: "distinct (map (getRowKey ?p) (id_rows 25))"
    by (rule id_rows_distinct_keys) (simp add: bare_props_def)
  have kq: "distinct (map (getRowKey ?q) (id_rows 25))"
    by (rule id_rows_distinct_keys) (simp add: bare_props_def)
  have cp: "onFetchData ?p = None" "propSelectedRows ?p = None" "\<not> onSelectionChange ?p"
    "selectAllScopeConfig ?p \<noteq> Some ''all''"
    by (simp_all add: bare_props_def)
  have cq: "onFetchData ?q = None" "propSelectedRows ?q = None" "\<not> onSelectionChange ?q"
    "selectAllScopeConfig ?q = Some ''all''"
    by (simp_all add: bare_props_def)
  have "\<forall>i<25. isRowSelected ?p (fst (handleSelectAll sample_host ?p ?s True)) (id_rows 25 ! i)
               = (10 \<le> i \<and> i < 20)"
    using handleSelectAll_scope_25 [where p = ?p and s = ?s and h = sample_host] cp st kp len
    unfolding pp by blast
  moreover
  have "\<forall>i<25. isRowSelected ?q (fst (handleSelectAll sample_host ?q ?s True)) (id_rows 25 ! i)"
    using handleSelectAll_scope_25 [where p = ?q and s = ?s and h = sample_host] cq st kq len
    unfolding pq by blast
  ultimately show ?thesis by simp
qed

subsection \<open>Single selection mode\<close>

text \<open>
  C4, as stated, fails: in single mode \<^verbatim>\<open>handleSelectAll(true)\<close> on three rows leaves
  three rows selected.
\<close>

theorem single_mode_select_all_counterexample:
  "selectionMode (bare_props\<lparr>propData := id_rows 3, selectionMode := Some ''single''\<rparr>) = Some ''single''
   \<and> selectedRows (bare_props\<lparr>propData := id_rows 3, selectionMode := Some ''single''\<rparr>)
        (fst (handleSelectAll sample_host
               (bare_props\<lparr>propData := id_rows 3, selectionMode := Some ''single''\<rparr>)
               initial_state True))
      = [id_row 1, id_row 2, id_row 3]
   \<and> \<not> card (set (selectedRows (bare_props\<lparr>propData := id_rows 3, selectionMode := Some ''single''\<rparr>)
        (fst (handleSelectAll sample_host
               (bare_props\<lparr>propData := id_rows 3, selectionMode := Some ''single''\<rparr>)
               initial_state True)))) \<le> 1"
  by (simp add: handleSelectAll_def commitSelection_def selectAllScope_def paginatedData_def
      processedData_def isServerSide_def selectedRows_def clientFilterTerm_def filters_def
      sortOf_def page_def rowsPerPage_def truthy_def slice_def bare_props_def initial_state_def
      id_rows_def id_row_def upt_rec)

text \<open>
  C4, amended. In single mode a toggle commits at most one row: the empty selection when
  the row was selected, the row alone otherwise; a double click, unless disabled, commits
  the row alone. Select-all is not clamped by the hook: unchecked it commits the empty
  selection, checked it commits the whole scope whatever the mode.
\<close>

theorem single_mode_selection:
  assumes single: "selectionMode p = Some ''single''"
  shows "(\<exists>sel. handleSelectionChange p s row = commitSelection p s sel \<and> length sel \<le> 1
             \<and> (sel = [] \<or> sel = [row]))
       \<and> (doubleClickSelectsOnly p \<noteq> Some False \<longrightarrow>
            handleDoubleClickSelection p s row = commitSelection p s [row])
       \<and> (doubleClickSelectsOnly p = Some False \<longrightarrow> handleDoubleClickSelection p s row = (s, []))
       \<and> handleSelectAll h p s False = commitSelection p s []
       \<and> handleSelectAll h p s True = commitSelection p s (selectAllScope h p s)
       \<and> (propSelectedRows p = None \<and> \<not> onSelectionChange p \<longrightarrow>
            length (selectedRows p (fst (handleSelectionChange p s row))) \<le> 1
            \<and> (isRowSelected p s row \<longrightarrow> selectedRows p (fst (handleSelectionChange p s row)) = [])
            \<and> (\<not> isRowSelected p s row \<longrightarrow> selectedRows p (fst (handleSelectionChange p s row)) = [row])
            \<and> (doubleClickSelectsOnly p \<noteq> Some False \<longrightarrow>
                 selectedRows p (fst (handleDoubleClickSelection p s row)) = [row])
            \<and> selectedRows p (fst (handleSelectAll h p s False)) = []
            \<and> selectedRows p (fst (handleSelectAll h p s True)) = selectAllScope h p s)"
  using single
  by (auto simp: handleSelectionChange_def handleDoubleClickSelection_def handleSelectAll_def
      commitSelection_def selectedRows_def isRowSelected_def Let_def)

theorem single_mode_selection_witness:
  "selectionMode (bare_props\<lparr>selectionMode := Some ''single''\<rparr>) = Some ''single''
   \<and> selectedRows (bare_props\<lparr>selectionMode := Some ''single''\<rparr>)
        (fst (handleSelectionChange (bare_props\<lparr>selectionMode := Some ''single''\<rparr>)
               (initial_state\<lparr>internalSelectedRows := [id_row 1]\<rparr>) (id_row 2)))
      = [id_row 2]
   \<and> selectedRows (bare_props\<lparr>selectionMode := Some ''single''\<rparr>)
        (fst (handleSelectionChange (bare_props\<lparr>selectionMode := Some ''single''\<rparr>)
               (initial_state\<lparr>internalSelectedRows := [id_row 1]\<rparr>) (id_row 1)))
      = []"
proof -
  let ?p = "bare_props\<lparr>selectionMode := Some ''single''\<rparr>"
  let ?s = "initial_state\<lparr>internalSelectedRows := [id_row 1]\<rparr>"
  have a: "selectionMode ?p = Some ''single''" by simp
  have b: "propSelectedRows ?p = None \<and> \<not> onSelectionChange ?p"
    by (simp add: bare_props_def)
  have c: "\<not> isRowSelected ?p ?s (id_row 2)" "isRowSelected ?p ?s (id_row 1)"
    by (simp_all add: isRowSelected_def selectedRows_def getRowKey_def strict_eq_def
        js_get_def id_row_def bare_props_def initial_state_def)
  from single_mode_selection [OF a, where s = ?s and row = "id_row 2" and h = sample_host]
       single_mode_selection [OF a, where s = ?s and row = "id_row 1" and h = sample_host]
       a b c
  show ?thesis by blast
qed

subsection \<open>Sorting and rows without a value\<close>

lemma cmp_missing_left:
  "missing col x \<Longrightarrow> sortComparator h col dir x y = (if dir = Desc then - 1 else 1)"
  by (simp add: sortComparator_def missing_def nullish_def Let_def)

lemma cmp_missing_right:
  "\<not> missing col x \<Longrightarrow> missing col y \<Longrightarrow>
   sortComparator h col dir x y = (if dir = Desc then 1 else - 1)"
  by (simp add: sortComparator_def missing_def nullish_def Let_def)

lemma set_insert_by: "set (insert_by cmp x ys) = insert x (set ys)"
  by (induction ys) auto

lemma missing_last_Cons:
  "missing_last col (r # rs) = (if missing col r then list_all (missing col) rs else missing_last col rs)"
  by (simp add: missing_last_def)

lemma missing_first_Cons:
  "missing_first col (r # rs)
     = (if missing col r then missing_first col rs else list_all (\<lambda>r. \<not> missing col r) rs)"
  by (simp add: missing_first_def)

lemma insert_asc_missing_last:
  "missing_last col ys \<Longrightarrow> missing_last col (insert_by (sortComparator h col Asc) x ys)"
proof (induction ys)
  case Nil
  then show ?case by (simp add: missing_last_def)
next
  case (Cons y ys)
  show ?case
  proof (cases "missing col x")
    case mx: True
    then have c: "sortComparator h col Asc x y = 1" by (simp add: cmp_missing_left)
    show ?thesis
    proof (cases "missing col y")
      case True
      with Cons.prems have "list_all (missing col) ys" by (simp add: missing_last_Cons)
      with mx have "list_all (missing col) (insert_by (sortComparator h col Asc) x ys)"
        by (simp add: list_all_iff set_insert_by)
      with True c show ?thesis by (simp add: missing_last_Cons)
    next
      case False
      with Cons.prems have "missing_last col ys" by (simp add: missing_last_Cons)
      with Cons.IH False c show ?thesis by (simp add: missing_last_Cons)
    qed
  next
    case px: False
    show ?thesis
    proof (cases "missing col y")
      case True
      with px have "sortComparator h col Asc x y = - 1" by (simp add: cmp_missing_right)
      with px Cons.prems show ?thesis by (simp add: missing_last_Cons)
    next
      case False
      with Cons.prems have "missing_last col ys" by (simp add: missing_last_Cons)
      with Cons.IH False px Cons.prems show ?thesis by (simp add: missing_last_Cons)
    qed
  qed
qed

lemma insert_desc_missing_first:
  "missing_first col ys \<Longrightarrow> missing_first col (insert_by (sortComparator h col Desc) x ys)"
proof (induction ys)
  case Nil
  then show ?case by (simp add: missing_first_def)
next
  case (Cons y ys)
  show ?case
  proof (cases "missing col x")
    case mx: True
    then have c: "sortComparator h col Desc x y = - 1" by (simp add: cmp_missing_left)
    with mx Cons.prems show ?thesis by (simp add: missing_first_Cons)
  next
    case px: False
    show ?thesis
    proof (cases "missing col y")
      case True
      with px have c: "sortComparator h col Desc x y = 1" by (simp add: cmp_missing_right)
      from True Cons.prems have "missing_first col ys" by (simp add: missing_first_Cons)
      with Cons.IH True c show ?thesis by (simp add: missing_first_Cons)
    next
      case False
      with Cons.prems have "list_all (\<lambda>r. \<not> missing col r) ys" by (simp add: missing_first_Cons)
      with px have "list_all (\<lambda>r. \<not> missing col r) (insert_by (sortComparator h col Desc) x ys)"
        by (simp add: list_all_iff set_insert_by)
      with False px Cons.prems show ?thesis by (simp add: missing_first_Cons)
    qed
  qed
qed

lemma array_sort_asc_missing_last: "missing_last col (array_sort (sortComparator h col Asc) xs)"
proof (induction xs)
  case Nil
  show ?case by (simp add: array_sort_def missing_last_def)
next
  case (Cons x xs)
  then show ?case by (simp add: array_sort_def insert_asc_missing_last)
qed

lemma array_sort_desc_missing_first: "missing_first col (array_sort (sortComparator h col Desc) xs)"
proof (induction xs)
  case Nil
  show ?case by (simp add: array_sort_def missing_first_def)
next
  case (Cons x xs)
  then show ?case by (simp add: array_sort_def insert_desc_missing_first)
qed

text \<open>
  C3, as stated, fails for the descending direction: sorting the rows \<^verbatim>\<open>{v: 1}\<close>,
  \<^verbatim>\<open>{v: null}\<close> by \<^verbatim>\<open>v\<close> descending puts the row without a value first. On these
  two rows the comparator is consistent, so every conforming sort gives this order.
\<close>

theorem sort_desc_missing_counterexample:
  "sort_column (sortOf (bare_props\<lparr>propData := [JObj [(''v'', JNum 1)] JNull, JObj [(''v'', JNull)] JNull],
        propSort := Some \<lparr>sort_column = Some ''v'', sort_direction = Some Desc\<rparr>\<rparr>) initial_state) = Some ''v''
   \<and> processedData sample_host
        (bare_props\<lparr>propData := [JObj [(''v'', JNum 1)] JNull, JObj [(''v'', JNull)] JNull],
                    propSort := Some \<lparr>sort_column = Some ''v'', sort_direction = Some Desc\<rparr>\<rparr>)
        initial_state
      = [JObj [(''v'', JNull)] JNull, JObj [(''v'', JNum 1)] JNull]
   \<and> \<not> missing_last ''v'' (processedData sample_host
        (bare_props\<lparr>propData := [JObj [(''v'', JNum 1)] JNull, JObj [(''v'', JNull)] JNull],
                    propSort := Some \<lparr>sort_column = Some ''v'', sort_direction = Some Desc\<rparr>\<rparr>)
        initial_state)"
  by (simp add: processedData_def isServerSide_def truthy_def sortOf_def clientFilterTerm_def
      filters_def bare_props_def initial_state_def array_sort_def sortComparator_def
      getNestedValue_def getNestedValue_reads_def BANNED_KEYS_def js_get_def
      missing_last_def missing_def nullish_def)

text \<open>
  C3, amended. In local mode with a sort column, the rows whose resolved value is
  \<^verbatim>\<open>null\<close> or \<^verbatim>\<open>undefined\<close> come after all rows with a value when the direction is
  ascending and before all of them when it is descending: the sign of the whole comparator
  is negated, the placement of missing values with it.
\<close>

theorem sorted_missing_by_direction:
  assumes loc: "onFetchData p = None"
    and col: "sort_column (sortOf p s) = Some c" "c \<noteq> []"
  shows "(sort_direction (sortOf p s) = Some Asc \<longrightarrow> missing_last c (processedData h p s))
       \<and> (sort_direction (sortOf p s) = Some Desc \<longrightarrow> missing_first c (processedData h p s))"
  using loc col
  by (simp add: processedData_def isServerSide_def truthy_def Let_def
      array_sort_asc_missing_last array_sort_desc_missing_first)

theorem sorted_missing_by_direction_witness:
  "onFetchData (bare_props\<lparr>propData := [JObj [(''v'', JNull)] JNull, JObj [(''v'', JNum 1)] JNull],
        propSort := Some \<lparr>sort_column = Some ''v'', sort_direction = Some Asc\<rparr>\<rparr>) = None
   \<and> sort_column (sortOf (bare_props\<lparr>propData := [JObj [(''v'', JNull)] JNull, JObj [(''v'', JNum 1)] JNull],
        propSort := Some \<lparr>sort_column = Some ''v'', sort_direction = Some Asc\<rparr>\<rparr>) initial_state) = Some ''v''
   \<and> processedData sample_host
        (bare_props\<lparr>propData := [JObj [(''v'', JNull)] JNull, JObj [(''v'', JNum 1)] JNull],
                    propSort := Some \<lparr>sort_column = Some ''v'', sort_direction = Some Asc\<rparr>\<rparr>)
        initial_state
      = [JObj [(''v'', JNum 1)] JNull, JObj [(''v'', JNull)] JNull]
   \<and> missing_last ''v'' (processedData sample_host
        (bare_props\<lparr>propData := [JObj [(''v'', JNull)] JNull, JObj [(''v'', JNum 1)] JNull],
                    propSort := Some \<lparr>sort_column = Some ''v'', sort_direction = Some Asc\<rparr>\<rparr>)
        initial_state)
   \<and> missing_first ''v'' (processedData sample_host
        (bare_props\<lparr>propData := [JObj [(''v'', JNum 1)] JNull, JObj [(''v'', JNull)] JNull],
                    propSort := Some \<lparr>sort_column = Some ''v'', sort_direction = Some Desc\<rparr>\<rparr>)
        initial_state)"
proof -
  let ?p = "bare_props\<lparr>propData := [JObj [(''v'', JNull)] JNull, JObj [(''v'', JNum 1)] JNull],
        propSort := Some \<lparr>sort_column = Some ''v'', sort_direction = Some Asc\<rparr>\<rparr>"
  let ?q = "bare_props\<lparr>propData := [JObj [(''v'', JNum 1)] JNull, JObj [(''v'', JNull)] JNull],
        propSort := Some \<lparr>sort_column = Some ''v'', sort_direction = Some Desc\<rparr>\<rparr>"
  have a: "onFetchData ?p = None" "onFetchData ?q = None" by (simp_all add: bare_props_def)
  have b: "sort_column (sortOf ?p initial_state) = Some ''v''"
    "sort_direction (sortOf ?p initial_state) = Some Asc"
    "sort_column (sortOf ?q initial_state) = Some ''v''"
    "sort_direction (sortOf ?q initial_state) = Some Desc"
    by (simp_all add: sortOf_def)
  have c: "''v'' \<noteq> []" by simp
  have d: "processedData sample_host ?p initial_state
             = [JObj [(''v'', JNum 1)] JNull, JObj [(''v'', JNull)] JNull]"
    by (simp add: processedData_def isServerSide_def truthy_def sortOf_def clientFilterTerm_def
      filters_def bare_props_def initial_state_def array_sort_def sortComparator_def
      getNestedValue_def getNestedValue_reads_def BANNED_KEYS_def js_get_def)
  from sorted_missing_by_direction [OF a(1) b(1) c, where h = sample_host]
       sorted_missing_by_direction [OF a(2) b(3) c, where h = sample_host] a b d
  show ?thesis by blast
qed

subsection \<open>Column filter operators\<close>





subsection \<open>Angle brackets in the exported document\<close>

lemma count_escapeHtml:
  "count_list (escapeHtml h v) CHR ''<'' = 0" "count_list (escapeHtml h v) CHR ''>'' = 0"
  by (simp_all add: count_list_0_iff escapeHtml_no_lt escapeHtml_no_gt)

lemma digit_char_not_angle:
  assumes "d < 10" shows "digit_char d \<noteq> CHR ''<'' \<and> digit_char d \<noteq> CHR ''>''"
proof -
  have e: "(of_char (digit_char d) :: nat) = 48 + d"
    using assms by (simp add: digit_char_def)
  have "(of_char CHR ''<'' :: nat) = 60" "(of_char CHR ''>'' :: nat) = 62" by simp_all
  then have "(of_char (digit_char d) :: nat) \<noteq> of_char CHR ''<''"
    "(of_char (digit_char d) :: nat) \<noteq> of_char CHR ''>''"
    using e assms by simp_all
  then show ?thesis by auto
qed

lemma nat_to_string_no_angle:
  "CHR ''<'' \<notin> set (nat_to_string n) \<and> CHR ''>'' \<notin> set (nat_to_string n)"
proof (induction n rule: nat_to_string.induct)
  case (1 n)
  show ?case
  proof (cases "n < 10")
    case True
    with digit_char_not_angle [of n] show ?thesis
      by (subst (1 2) nat_to_string.simps) auto
  next
    case False
    have "n mod 10 < 10" by simp
    from digit_char_not_angle [OF this] "1.IH" [OF False] False show ?thesis
      by (subst (1 2) nat_to_string.simps) auto
  qed
qed

lemma count_nat_to_string:
  "count_list (nat_to_string n) CHR ''<'' = 0" "count_list (nat_to_string n) CHR ''>'' = 0"
  by (simp_all add: count_list_0_iff nat_to_string_no_angle)

lemma count_concat_map:
  "count_list (concat (map f xs)) c = sum_list (map (\<lambda>x. count_list (f x) c) xs)"
  by (induction xs) simp_all

lemma sum_list_const: "(\<forall>x \<in> set xs. g x = k) \<Longrightarrow> sum_list (map g xs) = length xs * k"
  by (induction xs) simp_all

lemma count_join_with:
  "count_list sep c = 0 \<Longrightarrow>
   count_list (join_with sep xs) c = sum_list (map (\<lambda>x. count_list x c) xs)"
  by (cases xs) (simp_all add: join_with_def count_concat_map)

lemma count_fixed_text:
  "count_list word_document_open CHR ''<'' = 4" "count_list word_document_head CHR ''<'' = 16"
  "count_list word_document_open CHR ''>'' = 4" "count_list word_document_head CHR ''>'' = 16"
  by code_simp+

lemma count_newline:
  "count_list newline CHR ''<'' = 0" "count_list newline CHR ''>'' = 0"
  by (simp_all add: newline_def)

lemma count_tableCell:
  "count_list (tableCell h row i col) CHR ''<'' = 2"
  "count_list (tableCell h row i col) CHR ''>'' = 2"
  by (simp_all add: tableCell_def count_escapeHtml)

lemma count_tableRow:
  "count_list (tableRow h cols ir) CHR ''<'' = 2 + 2 * length cols"
  "count_list (tableRow h cols ir) CHR ''>'' = 2 + 2 * length cols"
proof -
  have "sum_list (map (\<lambda>col. count_list (tableCell h (snd ir) (fst ir) col) CHR ''<'') cols)
          = length cols * 2"
    "sum_list (map (\<lambda>col. count_list (tableCell h (snd ir) (fst ir) col) CHR ''>'') cols)
          = length cols * 2"
    by (rule sum_list_const, simp add: count_tableCell)+
  then show "count_list (tableRow h cols ir) CHR ''<'' = 2 + 2 * length cols"
    "count_list (tableRow h cols ir) CHR ''>'' = 2 + 2 * length cols"
    by (simp_all add: tableRow_def count_concat_map)
qed

lemma count_tableRows:
  "count_list (tableRows h cols rows) CHR ''<'' = length rows * (2 + 2 * length cols)"
  "count_list (tableRows h cols rows) CHR ''>'' = length rows * (2 + 2 * length cols)"
proof -
  have "sum_list (map (\<lambda>x. count_list x CHR ''<'') (map (tableRow h cols) (enumerate 0 rows)))
          = length (enumerate 0 rows) * (2 + 2 * length cols)"
    "sum_list (map (\<lambda>x. count_list x CHR ''>'') (map (tableRow h cols) (enumerate 0 rows)))
          = length (enumerate 0 rows) * (2 + 2 * length cols)"
    unfolding map_map comp_def
    by (rule sum_list_const, simp add: count_tableRow)+
  then show "count_list (tableRows h cols rows) CHR ''<'' = length rows * (2 + 2 * length cols)"
    "count_list (tableRows h cols rows) CHR ''>'' = length rows * (2 + 2 * length cols)"
    by (simp_all add: tableRows_def count_join_with count_newline)
qed

lemma count_headerRow:
  "count_list (headerRow h cols config) CHR ''<''
     = (if includeHeaders config \<noteq> Some False then 2 + 2 * length cols else 0)"
  "count_list (headerRow h cols config) CHR ''>''
     = (if includeHeaders config \<noteq> Some False then 2 + 2 * length cols else 0)"
proof -
  have "sum_list (map (\<lambda>col. count_list (''<th>'' @ escapeHtml h (JStr (col_label col)) @ ''</th>'')
                                CHR ''<'') cols) = length cols * 2"
    "sum_list (map (\<lambda>col. count_list (''<th>'' @ escapeHtml h (JStr (col_label col)) @ ''</th>'')
                                CHR ''>'') cols) = length cols * 2"
    by (rule sum_list_const, simp add: count_escapeHtml)+
  then show "count_list (headerRow h cols config) CHR ''<''
     = (if includeHeaders config \<noteq> Some False then 2 + 2 * length cols else 0)"
    "count_list (headerRow h cols config) CHR ''>''
     = (if includeHeaders config \<noteq> Some False then 2 + 2 * length cols else 0)"
    by (simp_all add: headerRow_def count_concat_map)
qed

lemma or_else_truthy: "truthy t \<Longrightarrow> or_else t d = the t"
  by (auto simp: truthy_def or_else_def split: option.splits)

lemma or_else_not_truthy: "\<not> truthy t \<Longrightarrow> or_else t d = d"
  by (auto simp: truthy_def or_else_def split: option.splits)

lemma count_customHeaderHtml:
  "count_list (customHeaderHtml h config) CHR ''<''
     = (if truthy (customHeader config) then 2 else 0)
       + (if allowUnsafeHtml config = Some True
          then count_list (or_else (customHeader config) []) CHR ''<'' else 0)"
  "count_list (customHeaderHtml h config) CHR ''>''
     = (if truthy (customHeader config) then 2 else 0)
       + (if allowUnsafeHtml config = Some True
          then count_list (or_else (customHeader config) []) CHR ''>'' else 0)"
  by (cases "truthy (customHeader config)";
      simp add: customHeaderHtml_def resolveHtmlContent_def count_escapeHtml
        or_else_truthy or_else_not_truthy)+

lemma count_customFooterHtml:
  "count_list (customFooterHtml h config) CHR ''<''
     = 2 + (if allowUnsafeHtml config = Some True
            then count_list (or_else (customFooter config) []) CHR ''<'' else 0)"
  "count_list (customFooterHtml h config) CHR ''>''
     = 2 + (if allowUnsafeHtml config = Some True
            then count_list (or_else (customFooter config) []) CHR ''>'' else 0)"
  by (cases "truthy (customFooter config)";
      simp add: customFooterHtml_def resolveHtmlContent_def count_escapeHtml
        or_else_truthy or_else_not_truthy)+

lemmas count_parts =
  count_fixed_text count_newline count_escapeHtml count_nat_to_string count_tableRows
  count_headerRow count_customHeaderHtml count_customFooterHtml

lemma count_exportToWord:
  "count_list (exportToWord h rows cols config) CHR ''<''
     = template_markup (length rows) (length (exportableColumns cols)) config
       + trusted_markup CHR ''<'' config"
  "count_list (exportToWord h rows cols config) CHR ''>''
     = template_markup (length rows) (length (exportableColumns cols)) config
       + trusted_markup CHR ''>'' config"
  unfolding exportToWord_def template_markup_def trusted_markup_def
  by (simp_all add: count_parts)

subsection \<open>No bold element\<close>

lemma no_bold_Nil: "no_bold []"
  by (simp add: no_bold_def)

lemma no_bold_append:
  assumes "no_bold a" and "no_bold b"
  shows "no_bold (a @ b)"
proof -
  have s1: "\<not> suffix ''<'' (a @ b)"
    using assms by (auto simp: no_bold_def suffix_append Cons_eq_append_conv)
  have s2: "\<not> suffix ''<b'' (a @ b)"
    using assms by (auto simp: no_bold_def suffix_append Cons_eq_append_conv)
  have s3: "\<not> sublist ''<b>'' (a @ b)"
    using assms by (auto simp: no_bold_def sublist_append Cons_eq_append_conv)
  from s1 s2 s3 show ?thesis by (simp add: no_bold_def)
qed

lemma no_lt_no_bold:
  assumes "CHR ''<'' \<notin> set s" shows "no_bold s"
proof -
  have "\<not> sublist ''<b>'' s" using set_mono_sublist [of "''<b>''" s] assms by auto
  moreover have "\<not> suffix ''<'' s" using set_mono_suffix [of "''<''" s] assms by auto
  moreover have "\<not> suffix ''<b'' s" using set_mono_suffix [of "''<b''" s] assms by auto
  ultimately show ?thesis by (simp add: no_bold_def)
qed

lemma no_bold_concat: "(\<forall>x \<in> set xs. no_bold x) \<Longrightarrow> no_bold (concat xs)"
  by (induction xs) (simp_all add: no_bold_Nil no_bold_append)

lemma no_bold_join_with:
  assumes "no_bold sep" and "\<forall>x \<in> set xs. no_bold x"
  shows "no_bold (join_with sep xs)"
proof (cases xs)
  case Nil
  then show ?thesis by (simp add: join_with_def no_bold_Nil)
next
  case (Cons y ys)
  with assms have "\<forall>x \<in> set (map (\<lambda>s. sep @ s) ys). no_bold x"
    by (auto intro: no_bold_append)
  then have "no_bold (concat (map (\<lambda>s. sep @ s) ys))" by (rule no_bold_concat)
  with assms Cons show ?thesis by (simp add: join_with_def no_bold_append)
qed

lemma no_bold_fixed_text:
  "no_bold word_document_open" "no_bold word_document_head" "no_bold newline"
  unfolding no_bold_def by code_simp+

lemma no_bold_escapeHtml: "no_bold (escapeHtml h v)"
  by (rule no_lt_no_bold) (rule escapeHtml_no_lt)

lemma no_bold_nat_to_string: "no_bold (nat_to_string n)"
  by (rule no_lt_no_bold) (simp add: nat_to_string_no_angle)

lemma no_bold_literals:
  "no_bold ''<td>''" "no_bold ''</td>''" "no_bold ''<tr>''" "no_bold ''</tr>''"
  "no_bold ''<th>''" "no_bold ''</th>''" "no_bold ''<h1>''" "no_bold ''</h1>''"
  "no_bold ''</p>''" "no_bold ''</div>''" "no_bold ''  ''"
  \<open>no_bold ''<p class="subtitle">''\<close> \<open>no_bold ''<div class="custom-header">''\<close>
  \<open>no_bold ''<p class="footer">''\<close> \<open>no_bold ''  <p class="meta">Generated: ''\<close>
  "no_bold '' | Total Records: ''" "no_bold ''  <table>''" "no_bold ''    <thead>''"
  "no_bold ''</thead>''" "no_bold ''    <tbody>''" "no_bold ''</tbody>''"
  "no_bold ''  </table>''" "no_bold ''</body>''" "no_bold ''</html>''"
  unfolding no_bold_def by code_simp+

lemmas no_bold_intros =
  no_bold_append no_bold_Nil no_bold_escapeHtml no_bold_nat_to_string no_bold_literals
  no_bold_fixed_text

lemma no_bold_concat_map: "(\<And>x. no_bold (f x)) \<Longrightarrow> no_bold (concat (map f xs))"
  by (induction xs) (simp_all add: no_bold_Nil no_bold_append)

lemma no_bold_tableRows: "no_bold (tableRows h cols rows)"
proof -
  have cell: "\<And>r i col. no_bold (tableCell h r i col)"
    unfolding tableCell_def by (intro no_bold_intros)
  have "\<And>ir. no_bold (tableRow h cols ir)"
    unfolding tableRow_def
    by (intro no_bold_append no_bold_literals no_bold_concat_map cell)
  then show ?thesis
    unfolding tableRows_def
    by (intro no_bold_join_with no_bold_fixed_text) simp
qed

lemma no_bold_if: "no_bold x \<Longrightarrow> no_bold y \<Longrightarrow> no_bold (if b then x else y)"
  by simp

lemma no_bold_headerRow: "no_bold (headerRow h cols config)"
proof -
  have "\<And>col. no_bold (''<th>'' @ escapeHtml h (JStr (col_label col)) @ ''</th>'')"
    by (intro no_bold_intros)
  then have c: "no_bold (concat (map (\<lambda>col. ''<th>'' @ escapeHtml h (JStr (col_label col)) @ ''</th>'')
                                      cols))"
    by (rule no_bold_concat_map)
  show ?thesis
    unfolding headerRow_def by (intro no_bold_if no_bold_intros c)
qed

lemma no_bold_custom:
  assumes "allowUnsafeHtml config \<noteq> Some True"
  shows "no_bold (customHeaderHtml h config)" and "no_bold (customFooterHtml h config)"
proof -
  have r: "\<And>v. no_bold (resolveHtmlContent h v (allowUnsafeHtml config = Some True))"
    using assms by (simp add: resolveHtmlContent_def no_bold_Nil no_bold_escapeHtml)
  show "no_bold (customHeaderHtml h config)"
    unfolding customHeaderHtml_def by (intro no_bold_if no_bold_intros r)
  show "no_bold (customFooterHtml h config)"
    unfolding customFooterHtml_def by (intro no_bold_if no_bold_intros r)
qed

lemma no_bold_exportToWord:
  assumes "allowUnsafeHtml config \<noteq> Some True"
  shows "no_bold (exportToWord h rows cols config)"
  unfolding exportToWord_def
  by (intro no_bold_if no_bold_intros no_bold_tableRows no_bold_headerRow
      no_bold_custom [OF assms])

subsection \<open>Where the escaped texts stand in the document\<close>

lemma sublist_appendL: "sublist x b \<Longrightarrow> sublist x (a @ b)"
  by (simp add: sublist_append)

lemma sublist_appendR: "sublist x a \<Longrightarrow> sublist x (a @ b)"
  by (simp add: sublist_append)

lemma sublist_concat_map: "x \<in> set xs \<Longrightarrow> sublist (f x) (concat (map f xs))"
  by (induction xs) (auto intro: sublist_appendL)

lemma sublist_join_with: "x \<in> set xs \<Longrightarrow> sublist x (join_with sep xs)"
proof (cases xs)
  case Nil
  assume "x \<in> set xs"
  with Nil show ?thesis by simp
next
  case (Cons y ys)
  assume x: "x \<in> set xs"
  show ?thesis
  proof (cases "x = y")
    case True
    with Cons show ?thesis by (simp add: join_with_def)
  next
    case False
    with x Cons have "x \<in> set ys" by simp
    then have "sublist (sep @ x) (concat (map (\<lambda>s. sep @ s) ys))"
      by (rule sublist_concat_map)
    moreover have "sublist x (sep @ x)" by simp
    ultimately have "sublist x (concat (map (\<lambda>s. sep @ s) ys))"
      by (rule sublist_order.order.trans [rotated])
    with Cons show ?thesis by (simp add: join_with_def sublist_appendL)
  qed
qed

lemma sublist_tableRows:
  assumes i: "i < length rows" and c: "col \<in> set cols"
  shows "sublist (tableCell h (rows ! i) i col) (tableRows h cols rows)"
proof -
  from i have "(i, rows ! i) \<in> set (enumerate 0 rows)"
    by (simp add: in_set_enumerate_eq)
  then have "tableRow h cols (i, rows ! i) \<in> tableRow h cols ` set (enumerate 0 rows)"
    by (rule imageI)
  then have "tableRow h cols (i, rows ! i) \<in> set (map (tableRow h cols) (enumerate 0 rows))"
    by simp
  then have r: "sublist (tableRow h cols (i, rows ! i)) (tableRows h cols rows)"
    unfolding tableRows_def by (rule sublist_join_with)
  from c have "sublist (tableCell h (rows ! i) i col)
                 (concat (map (tableCell h (rows ! i) i) cols))"
    by (rule sublist_concat_map)
  then have "sublist (tableCell h (rows ! i) i col) (tableRow h cols (i, rows ! i))"
    unfolding tableRow_def fst_conv snd_conv
    by (intro sublist_appendL sublist_appendR)
  from this r show ?thesis by (rule sublist_order.order.trans)
qed

lemma sublist_tableRows_document:
  "sublist (tableRows h (exportableColumns cols) rows) (exportToWord h rows cols config)"
  unfolding exportToWord_def
  by (rule sublist_append_rightI | rule sublist_appendL)+

lemma sublist_customHeaderHtml_document:
  "sublist (customHeaderHtml h config) (exportToWord h rows cols config)"
  unfolding exportToWord_def
  by (rule sublist_append_rightI | rule sublist_appendL)+

lemma sublist_customFooterHtml_document:
  "sublist (customFooterHtml h config) (exportToWord h rows cols config)"
  unfolding exportToWord_def
  by (rule sublist_append_rightI | rule sublist_appendL)+

lemma sublist_title_document:
  assumes t: "truthy (title config)"
  shows "sublist (''<h1>'' @ escapeHtml h (JStr (the (title config))) @ ''</h1>'')
           (exportToWord h rows cols config)"
  unfolding exportToWord_def
  by (simp only: t if_True) (rule sublist_append_rightI | rule sublist_appendL)+

lemma sublist_subtitle_document:
  assumes t: "truthy (subtitle config)"
  shows \<open>sublist (''<p class="subtitle">'' @ escapeHtml h (JStr (the (subtitle config))) @ ''</p>'')
           (exportToWord h rows cols config)\<close>
  unfolding exportToWord_def
  by (simp only: t if_True) (rule sublist_append_rightI | rule sublist_appendL)+

lemma prefix_document:
  "prefix (word_document_open @ escapeHtml h (JStr (or_else (title config) ''Export''))
             @ word_document_head)
          (exportToWord h rows cols config)"
  unfolding exportToWord_def by (simp only: same_prefix_prefix) (rule prefixI, rule refl)

lemma sublist_meta_document:
  \<open>sublist (''  <p class="meta">Generated: '' @ escapeHtml h (JStr (nowLocaleString h))
             @ '' | Total Records: '' @ nat_to_string (length rows) @ ''</p>'')
           (exportToWord h rows cols config)\<close>
proof -
  have \<open>prefix (''  <p class="meta">Generated: '' @ escapeHtml h (JStr (nowLocaleString h))
             @ '' | Total Records: '' @ nat_to_string (length rows) @ ''</p>'')
          (''  <p class="meta">Generated: '' @ escapeHtml h (JStr (nowLocaleString h))
             @ '' | Total Records: '' @ nat_to_string (length rows) @ ''</p>'' @ rest)\<close> for rest
    by (simp only: same_prefix_prefix) (rule prefixI, rule refl)
  then have m: \<open>sublist (''  <p class="meta">Generated: '' @ escapeHtml h (JStr (nowLocaleString h))
             @ '' | Total Records: '' @ nat_to_string (length rows) @ ''</p>'')
          (''  <p class="meta">Generated: '' @ escapeHtml h (JStr (nowLocaleString h))
             @ '' | Total Records: '' @ nat_to_string (length rows) @ ''</p>'' @ rest)\<close> for rest
    by (rule prefix_imp_sublist)
  show ?thesis
    unfolding exportToWord_def
    by (rule m | rule sublist_appendL)+
qed

lemma customHeaderHtml_truthy:
  "truthy (customHeader config) \<Longrightarrow>
   customHeaderHtml h config
     = ''<div class=\"custom-header\">''
       @ (if allowUnsafeHtml config = Some True then the (customHeader config)
          else escapeHtml h (JStr (the (customHeader config))))
       @ ''</div>''"
  by (simp add: customHeaderHtml_def resolveHtmlContent_def)

lemma customFooterHtml_truthy:
  "truthy (customFooter config) \<Longrightarrow>
   customFooterHtml h config
     = ''<p class=\"footer\">''
       @ (if allowUnsafeHtml config = Some True then the (customFooter config)
          else escapeHtml h (JStr (the (customFooter config))))
       @ ''</p>''"
  by (simp add: customFooterHtml_def resolveHtmlContent_def)

lemma escapeHtml_bold_example: "escapeHtml h (JStr ''<b>Hi</b>'') = ''&lt;b&gt;Hi&lt;/b&gt;''"
  by (simp add: escapeHtml_def serialize_text_def escape_char_def)


text \<open>
  C2. In the document of \<^verbatim>\<open>exportToWord\<close>, for every input and whatever
  \<^verbatim>\<open>allowUnsafeHtml\<close> is: the title (in the \<^verbatim>\<open>title\<close> element and in the heading), the
  subtitle, the meta line and every cell stand in the document in their escaped form, and
  the opening and the closing angle brackets of the document are those of the template plus
  those of the custom header and footer when these are declared trusted, so that no other
  text adds markup. The custom header and footer stand raw when \<^verbatim>\<open>allowUnsafeHtml\<close> is
  \<^verbatim>\<open>true\<close> and escaped otherwise. When it is not \<^verbatim>\<open>true\<close> the document never
  contains \<^verbatim>\<open><b>\<close>, and with the custom header \<^verbatim>\<open><b>Hi</b>\<close> it contains the text
  \<^verbatim>\<open>&lt;b&gt;Hi&lt;/b&gt;\<close>.
\<close>

theorem exportToWord_escaping:
  "(let doc = exportToWord h rows cols config in
      count_list doc CHR ''<''
        = template_markup (length rows) (length (exportableColumns cols)) config
          + trusted_markup CHR ''<'' config
    \<and> count_list doc CHR ''>''
        = template_markup (length rows) (length (exportableColumns cols)) config
          + trusted_markup CHR ''>'' config
    \<and> prefix (word_document_open @ escapeHtml h (JStr (or_else (title config) ''Export''))
                @ word_document_head) doc
    \<and> (truthy (title config) \<longrightarrow>
          sublist (''<h1>'' @ escapeHtml h (JStr (the (title config))) @ ''</h1>'') doc)
    \<and> (truthy (subtitle config) \<longrightarrow>
          sublist (''<p class=\"subtitle\">'' @ escapeHtml h (JStr (the (subtitle config))) @ ''</p>'')
            doc)
    \<and> sublist (''  <p class=\"meta\">Generated: '' @ escapeHtml h (JStr (nowLocaleString h))
                 @ '' | Total Records: '' @ nat_to_string (length rows) @ ''</p>'') doc
    \<and> (\<forall>i < length rows. \<forall>col \<in> set (exportableColumns cols).
          sublist (''<td>''
                   @ escapeHtml h (JStr (formatValueForExport h
                        (getNestedValue (rows ! i) (col_id col)) (rows ! i) col i))
                   @ ''</td>'') doc)
    \<and> (truthy (customHeader config) \<longrightarrow>
          sublist (''<div class=\"custom-header\">''
                   @ (if allowUnsafeHtml config = Some True then the (customHeader config)
                      else escapeHtml h (JStr (the (customHeader config))))
                   @ ''</div>'') doc)
    \<and> (truthy (customFooter config) \<longrightarrow>
          sublist (''<p class=\"footer\">''
                   @ (if allowUnsafeHtml config = Some True then the (customFooter config)
                      else escapeHtml h (JStr (the (customFooter config))))
                   @ ''</p>'') doc)
    \<and> (allowUnsafeHtml config \<noteq> Some True \<longrightarrow> \<not> sublist ''<b>'' doc)
    \<and> (allowUnsafeHtml config \<noteq> Some True \<and> customHeader config = Some ''<b>Hi</b>'' \<longrightarrow>
          sublist (''<div class=\"custom-header\">'' @ ''&lt;b&gt;Hi&lt;/b&gt;'' @ ''</div>'') doc
          \<and> sublist ''&lt;b&gt;Hi&lt;/b&gt;'' doc))"
proof -
  let ?doc = "exportToWord h rows cols config"
  have cells: "\<forall>i < length rows. \<forall>col \<in> set (exportableColumns cols).
          sublist (''<td>''
                   @ escapeHtml h (JStr (formatValueForExport h
                        (getNestedValue (rows ! i) (col_id col)) (rows ! i) col i))
                   @ ''</td>'') ?doc"
  proof (intro allI impI ballI)
    fix i col
    assume "i < length rows" and "col \<in> set (exportableColumns cols)"
    then have "sublist (tableCell h (rows ! i) i col) (tableRows h (exportableColumns cols) rows)"
      by (rule sublist_tableRows)
    then have "sublist (tableCell h (rows ! i) i col) ?doc"
      using sublist_tableRows_document by (rule sublist_order.order.trans)
    then show "sublist (''<td>''
                   @ escapeHtml h (JStr (formatValueForExport h
                        (getNestedValue (rows ! i) (col_id col)) (rows ! i) col i))
                   @ ''</td>'') ?doc"
      by (simp only: tableCell_def)
  qed
  have hdr: "truthy (customHeader config) \<longrightarrow>
          sublist (''<div class=\"custom-header\">''
                   @ (if allowUnsafeHtml config = Some True then the (customHeader config)
                      else escapeHtml h (JStr (the (customHeader config))))
                   @ ''</div>'') ?doc"
    using sublist_customHeaderHtml_document [of h config rows cols]
    by (auto simp only: customHeaderHtml_truthy)
  have ftr: "truthy (customFooter config) \<longrightarrow>
          sublist (''<p class=\"footer\">''
                   @ (if allowUnsafeHtml config = Some True then the (customFooter config)
                      else escapeHtml h (JStr (the (customFooter config))))
                   @ ''</p>'') ?doc"
    using sublist_customFooterHtml_document [of h config rows cols]
    by (auto simp only: customFooterHtml_truthy)
  have nb: "allowUnsafeHtml config \<noteq> Some True \<longrightarrow> \<not> sublist ''<b>'' ?doc"
    using no_bold_exportToWord [of config h rows cols] by (simp only: no_bold_def) blast
  have ex: "allowUnsafeHtml config \<noteq> Some True \<and> customHeader config = Some ''<b>Hi</b>'' \<longrightarrow>
          sublist (''<div class=\"custom-header\">'' @ ''&lt;b&gt;Hi&lt;/b&gt;'' @ ''</div>'') ?doc
          \<and> sublist ''&lt;b&gt;Hi&lt;/b&gt;'' ?doc"
  proof (intro impI, elim conjE)
    assume off: "allowUnsafeHtml config \<noteq> Some True" and b: "customHeader config = Some ''<b>Hi</b>''"
    from b have t: "truthy (customHeader config)" by (simp add: truthy_def)
    from b have v: "the (customHeader config) = ''<b>Hi</b>''" by simp
    from hdr t off have 1: "sublist (''<div class=\"custom-header\">''
                   @ escapeHtml h (JStr (the (customHeader config))) @ ''</div>'') ?doc"
      by (simp only: if_False simp_thms)
    then have 2: "sublist (''<div class=\"custom-header\">'' @ ''&lt;b&gt;Hi&lt;/b&gt;'' @ ''</div>'') ?doc"
      by (simp only: v escapeHtml_bold_example)
    have "sublist ''&lt;b&gt;Hi&lt;/b&gt;''
            (''<div class=\"custom-header\">'' @ ''&lt;b&gt;Hi&lt;/b&gt;'' @ ''</div>'')"
      by (rule sublist_appendI)
    from this 2 have 3: "sublist ''&lt;b&gt;Hi&lt;/b&gt;'' ?doc"
      by (rule sublist_order.order.trans)
    from 2 3 show "sublist (''<div class=\"custom-header\">'' @ ''&lt;b&gt;Hi&lt;/b&gt;'' @ ''</div>'') ?doc
          \<and> sublist ''&lt;b&gt;Hi&lt;/b&gt;'' ?doc" by (rule conjI)
  qed
  show ?thesis
    unfolding Let_def
    using count_exportToWord [of h rows cols config] prefix_document [of h config rows cols]
      sublist_title_document [of config h rows cols]
      sublist_subtitle_document [of config h rows cols]
      sublist_meta_document [of h rows cols config] cells hdr ftr nb ex
    by (intro conjI impI) (assumption | blast)+
qed

theorem exportToWord_escaping_witness:
  "truthy (title sample_config)
   \<and> allowUnsafeHtml sample_config \<noteq> Some True
   \<and> customHeader sample_config = Some ''<b>Hi</b>''
   \<and> sample_column \<in> set (exportableColumns [sample_column])
   \<and> sublist ''&lt;b&gt;Hi&lt;/b&gt;''
        (exportToWord sample_host [JObj [(''name'', JStr ''<i>x'')] JNull] [sample_column] sample_config)
   \<and> \<not> sublist ''<b>''
        (exportToWord sample_host [JObj [(''name'', JStr ''<i>x'')] JNull] [sample_column] sample_config)
   \<and> sublist ''<h1>T&lt;1&gt;</h1>''
        (exportToWord sample_host [JObj [(''name'', JStr ''<i>x'')] JNull] [sample_column] sample_config)
   \<and> sublist ''<td>&lt;i&gt;x</td>''
        (exportToWord sample_host [JObj [(''name'', JStr ''<i>x'')] JNull] [sample_column] sample_config)
   \<and> count_list
        (exportToWord sample_host [JObj [(''name'', JStr ''<i>x'')] JNull] [sample_column] sample_config)
        CHR ''<'' = 44"
proof -
  let ?rows = "[JObj [(''name'', JStr ''<i>x'')] JNull]"
  let ?doc = "exportToWord sample_host ?rows [sample_column] sample_config"
  note T = exportToWord_escaping [of sample_host ?rows "[sample_column]" sample_config,
      unfolded Let_def]
  have t: "truthy (title sample_config)" by (simp add: sample_config_def truthy_def)
  have off: "allowUnsafeHtml sample_config \<noteq> Some True" by (simp add: sample_config_def)
  have b: "customHeader sample_config = Some ''<b>Hi</b>''" by (simp add: sample_config_def)
  have ec: "exportableColumns [sample_column] = [sample_column]"
    by (simp add: exportableColumns_def sample_column_def)
  then have c: "sample_column \<in> set (exportableColumns [sample_column])" by simp
  from T off b have 1: "sublist ''&lt;b&gt;Hi&lt;/b&gt;'' ?doc" by blast
  from T off have 2: "\<not> sublist ''<b>'' ?doc" by blast
  from T t have "sublist (''<h1>'' @ escapeHtml sample_host (JStr (the (title sample_config)))
                            @ ''</h1>'') ?doc"
    by blast
  then have 3: "sublist ''<h1>T&lt;1&gt;</h1>'' ?doc"
    by (simp add: sample_config_def escapeHtml_def serialize_text_def escape_char_def)
  from T have "\<forall>i < length ?rows. \<forall>col \<in> set (exportableColumns [sample_column]).
          sublist (''<td>''
                   @ escapeHtml sample_host (JStr (formatValueForExport sample_host
                        (getNestedValue (?rows ! i) (col_id col)) (?rows ! i) col i))
                   @ ''</td>'') ?doc"
    by blast
  then have "sublist (''<td>''
                   @ escapeHtml sample_host (JStr (formatValueForExport sample_host
                        (getNestedValue (?rows ! 0) (col_id sample_column)) (?rows ! 0)
                        sample_column 0))
                   @ ''</td>'') ?doc"
    using c by simp
  then have 4: "sublist ''<td>&lt;i&gt;x</td>'' ?doc"
    by (simp add: sample_column_def formatValueForExport_def getNestedValue_def
        getNestedValue_reads_def BANNED_KEYS_def js_get_def escapeHtml_def serialize_text_def
        escape_char_def)
  from T have "count_list ?doc CHR ''<''
        = template_markup (length ?rows) (length (exportableColumns [sample_column])) sample_config
          + trusted_markup CHR ''<'' sample_config"
    by blast
  then have 5: "count_list ?doc CHR ''<'' = 44"
    by (simp add: ec template_markup_def trusted_markup_def sample_config_def truthy_def)
  from t off b c 1 2 3 4 5 show ?thesis by blast
qed

end
